theory Spec2Isabelle
  imports Complex_Main "HOL-Library.Sublist" "HOL-Library.AList"
begin

section \<open>Breed resolution of \<^verbatim>\<open>main.py\<close>\<close>

text \<open>
  The development embeds the breed-resolution part of \<^verbatim>\<open>main.py\<close>: the cached loader
  \<^verbatim>\<open>load_breeds_cache\<close>, the matcher \<^verbatim>\<open>search_breeds\<close> and the decision
  \<^verbatim>\<open>resolve_breed_code\<close>.

  Python strings are modelled as \<^typ>\<open>string\<close> holding ASCII text: \<^verbatim>\<open>lower\<close>,
  \<^verbatim>\<open>strip\<close> and \<^verbatim>\<open>capitalize\<close> act on the ASCII letters and the ASCII whitespace
  characters that Python's \<^verbatim>\<open>str\<close> methods recognise; every other character is left
  alone and is not whitespace.
\<close>

subsection \<open>String methods\<close>

definition isspace :: "char \<Rightarrow> bool" where
  "isspace c = (let n = (of_char c :: nat) in (9 \<le> n \<and> n \<le> 13) \<or> (28 \<le> n \<and> n \<le> 32))"

definition lower_char :: "char \<Rightarrow> char" where
  "lower_char c = (let n = (of_char c :: nat) in if 65 \<le> n \<and> n \<le> 90 then char_of (n + 32) else c)"

definition upper_char :: "char \<Rightarrow> char" where
  "upper_char c = (let n = (of_char c :: nat) in if 97 \<le> n \<and> n \<le> 122 then char_of (n - 32) else c)"

text \<open>\<^verbatim>\<open>s.lower()\<close>\<close>

definition lower :: "string \<Rightarrow> string" where
  "lower s = map lower_char s"

text \<open>\<^verbatim>\<open>s.strip()\<close>: leading and trailing whitespace removed.\<close>

definition strip :: "string \<Rightarrow> string" where
  "strip s = rev (dropWhile isspace (rev (dropWhile isspace s)))"

text \<open>\<^verbatim>\<open>s.capitalize()\<close>: first character upper-cased, the rest lower-cased.\<close>

fun capitalize :: "string \<Rightarrow> string" where
  "capitalize [] = []"
| "capitalize (c # cs) = upper_char c # lower cs"

subsection \<open>Data\<close>

text \<open>
  One value of the JSON object \<^verbatim>\<open>breed-mappings-generated.json\<close>. Both fields are read
  with \<^verbatim>\<open>.get\<close> and a default, so either may be absent. Provider identifiers are
  strings.
\<close>

record breed_data =
  data_label :: "string option"
  data_providers :: "(string \<rightharpoonup> string) option"

text \<open>The table is \<^verbatim>\<open>breeds.items()\<close>: the entries of the dict in iteration order.\<close>

type_synonym table = "(string \<times> breed_data) list"

datatype match_type = Exact | Partial | Fuzzy

text \<open>An element of \<^verbatim>\<open>matches\<close>; the key \<^verbatim>\<open>"score"\<close> is present on fuzzy matches only.\<close>

record match =
  key :: string
  label :: string
  breed_id :: string
  match_type :: match_type
  score :: "rat option"

text \<open>A value of the dict \<^verbatim>\<open>breed_labels\<close>.\<close>

record breed_info =
  info_key :: string
  info_breed_id :: string
  info_label :: string

record search_result =
  matches :: "match list"
  count :: nat

text \<open>An element of \<^verbatim>\<open>"options"\<close> in the multiple-match result.\<close>

record option_entry =
  opt_label :: string
  opt_key :: string
  opt_match_type :: match_type

text \<open>
  The two dicts \<^verbatim>\<open>resolve_breed_code\<close> returns: the single match
  (\<^verbatim>\<open>breed_id\<close>, \<^verbatim>\<open>label\<close>, \<^verbatim>\<open>key\<close>) and the multiple match
  (\<^verbatim>\<open>count\<close>, \<^verbatim>\<open>options\<close>, \<^verbatim>\<open>message\<close>; \<^verbatim>\<open>multiple_matches\<close> is the constructor).
\<close>

datatype resolution =
  Resolved string string string
| Ambiguous nat "option_entry list" string

text \<open>
  Every way the code can raise, one constructor per site: the three validation errors and
  the not-found error of \<^verbatim>\<open>resolve_breed_code\<close> (all \<^verbatim>\<open>HTTPException\<close>), the failure of
  \<^verbatim>\<open>open\<close>/\<^verbatim>\<open>json.load\<close>, and the implicit \<^verbatim>\<open>KeyError\<close> and \<^verbatim>\<open>IndexError\<close> of
  \<^verbatim>\<open>breed_labels[match_label]\<close> and \<^verbatim>\<open>matches[0]\<close>.
\<close>

datatype error =
  SpeciesRequired
| SpeciesNotDogOrCat
| BreedRequired
| NoBreedsFound string string
| DatasetUnreadable
| KeyError
| IndexError

fun status_code :: "error \<Rightarrow> nat option" where
  "status_code SpeciesRequired = Some 400"
| "status_code SpeciesNotDogOrCat = Some 404"
| "status_code BreedRequired = Some 400"
| "status_code (NoBreedsFound breed_name species) = Some 404"
| "status_code DatasetUnreadable = None"
| "status_code KeyError = None"
| "status_code IndexError = None"

definition quote :: string where
  "quote = [CHR 0x27]"

fun detail :: "error \<Rightarrow> string" where
  "detail SpeciesRequired = ''Species type is required''"
| "detail SpeciesNotDogOrCat =
     ''Species must be '' @ quote @ ''dog'' @ quote @ '' or '' @ quote @ ''cat'' @ quote"
| "detail BreedRequired = ''Breed name is required''"
| "detail (NoBreedsFound breed_name species) =
     ''No breeds found matching '' @ quote @ breed_name @ quote @ '' for '' @ species"
| "detail DatasetUnreadable = []"
| "detail KeyError = []"
| "detail IndexError = []"

subsection \<open>The cached loader\<close>

text \<open>
  The process state the resolution touches: the global \<^verbatim>\<open>BREEDS_CACHE\<close> (\<^verbatim>\<open>None\<close> until
  loaded) and, to make the effect on the file system visible, the number of times
  \<^verbatim>\<open>BREEDS_PATH\<close> has been opened. The file itself is an argument of the loader:
  \<^term>\<open>Some t\<close> when it can be opened and parses to the table \<^term>\<open>t\<close>, \<^term>\<open>None\<close>
  when \<^verbatim>\<open>open\<close> or \<^verbatim>\<open>json.load\<close> raises.
\<close>

record world =
  BREEDS_CACHE :: "table option"
  file_opens :: nat

definition load_breeds_cache :: "table option \<Rightarrow> world \<Rightarrow> (error + table) \<times> world" where
  "load_breeds_cache disk w =
     (case BREEDS_CACHE w of
        Some t \<Rightarrow> (Inr t, w)
      | None \<Rightarrow>
          (case disk of
             None \<Rightarrow> (Inl DatasetUnreadable, w\<lparr>file_opens := file_opens w + 1\<rparr>)
           | Some t \<Rightarrow> (Inr t, w\<lparr>BREEDS_CACHE := Some t, file_opens := file_opens w + 1\<rparr>)))"

subsection \<open>The matcher\<close>

definition get_label :: "breed_data \<Rightarrow> string" where
  "get_label bd = (case data_label bd of None \<Rightarrow> [] | Some l \<Rightarrow> l)"

definition get_providers :: "breed_data \<Rightarrow> (string \<rightharpoonup> string)" where
  "get_providers bd = (case data_providers bd of None \<Rightarrow> Map.empty | Some p \<Rightarrow> p)"

definition get_prudent_pet :: "(string \<rightharpoonup> string) \<Rightarrow> string" where
  "get_prudent_pet ps = (case ps ''PrudentPet'' of None \<Rightarrow> [] | Some v \<Rightarrow> v)"

text \<open>
  The first loop of \<^verbatim>\<open>search_breeds\<close> (lines 44 to 74): one pass over the table that
  appends an exact or a partial match for every record that passes both \<^verbatim>\<open>continue\<close>
  guards.
\<close>

fun first_loop :: "string \<Rightarrow> string \<Rightarrow> table \<Rightarrow> match list" where
  "first_loop breed_name_lower species_prefix [] = []"
| "first_loop breed_name_lower species_prefix ((breed_key, bd) # rest) =
     (case get_providers bd ''HealthyPaws'' of
        None \<Rightarrow> first_loop breed_name_lower species_prefix rest
      | Some healthy_paws_value \<Rightarrow>
          if healthy_paws_value = [] then first_loop breed_name_lower species_prefix rest
          else if \<not> prefix species_prefix (get_prudent_pet (get_providers bd))
            then first_loop breed_name_lower species_prefix rest
          else if lower (get_label bd) = breed_name_lower \<or> breed_key = breed_name_lower
            then \<lparr>key = breed_key, label = get_label bd, breed_id = healthy_paws_value,
                  match_type = Exact, score = None\<rparr>
                 # first_loop breed_name_lower species_prefix rest
          else if sublist breed_name_lower (lower (get_label bd))
                  \<or> sublist breed_name_lower breed_key
            then \<lparr>key = breed_key, label = get_label bd, breed_id = healthy_paws_value,
                  match_type = Partial, score = None\<rparr>
                 # first_loop breed_name_lower species_prefix rest
          else first_loop breed_name_lower species_prefix rest)"

text \<open>
  The second loop (lines 79 to 89) fills the dict \<^verbatim>\<open>breed_labels\<close>. A Python dict keeps
  the position of a key's first insertion and the value of its last assignment, which is
  what \<^const>\<open>AList.update\<close> does on an association list.
\<close>

fun build_breed_labels ::
  "string \<Rightarrow> table \<Rightarrow> (string \<times> breed_info) list \<Rightarrow> (string \<times> breed_info) list" where
  "build_breed_labels species_prefix [] breed_labels = breed_labels"
| "build_breed_labels species_prefix ((breed_key, bd) # rest) breed_labels =
     build_breed_labels species_prefix rest
       (case get_providers bd ''HealthyPaws'' of
          None \<Rightarrow> breed_labels
        | Some healthy_paws_value \<Rightarrow>
            if healthy_paws_value \<noteq> [] \<and> prefix species_prefix (get_prudent_pet (get_providers bd))
            then AList.update (get_label bd)
                   \<lparr>info_key = breed_key, info_breed_id = healthy_paws_value,
                    info_label = get_label bd\<rparr> breed_labels
            else breed_labels)"

text \<open>
  \<^verbatim>\<open>rapidfuzz.process.extract(query, choices, scorer=..., limit=...)\<close> is library code.
  Modelled from its documented contract: every choice is scored against the query, the
  triples (choice, score, index) are ordered by descending score, equal scores in the
  order of the choices, and the first \<^verbatim>\<open>limit\<close> are returned. The scorer
  (\<^verbatim>\<open>fuzz.token_sort_ratio\<close>, a floating-point similarity) is a parameter; a finite float
  is a rational number.
\<close>

definition process_extract ::
  "(string \<Rightarrow> string \<Rightarrow> rat) \<Rightarrow> string \<Rightarrow> string list \<Rightarrow> nat \<Rightarrow> (string \<times> rat \<times> nat) list" where
  "process_extract scorer query choices limit =
     take limit
       (sort_key (\<lambda>(choice, s, i). - s)
          (map (\<lambda>(i, choice). (choice, scorer query choice, i)) (enumerate 0 choices)))"

text \<open>The third loop (lines 100 to 109) over the results of \<^verbatim>\<open>process.extract\<close>.\<close>

fun fuzzy_loop :: "(string \<times> breed_info) list \<Rightarrow> (string \<times> rat \<times> nat) list \<Rightarrow> error + match list" where
  "fuzzy_loop breed_labels [] = Inr []"
| "fuzzy_loop breed_labels ((match_label, s, i) # rest) =
     (if s > 70 then
        (case map_of breed_labels match_label of
           None \<Rightarrow> Inl KeyError
         | Some info \<Rightarrow>
             (case fuzzy_loop breed_labels rest of
                Inl e \<Rightarrow> Inl e
              | Inr ms \<Rightarrow>
                  Inr (\<lparr>key = info_key info, label = info_label info,
                        breed_id = info_breed_id info, match_type = Fuzzy, score = Some s\<rparr> # ms)))
      else fuzzy_loop breed_labels rest)"

text \<open>The body of \<^verbatim>\<open>search_breeds\<close> once the table is loaded.\<close>

definition search_table ::
  "(string \<Rightarrow> string \<Rightarrow> rat) \<Rightarrow> table \<Rightarrow> string \<Rightarrow> string \<Rightarrow> error + search_result" where
  "search_table scorer breeds breed_name species_type =
     (let breed_name_lower = strip (lower breed_name);
          species_prefix = capitalize species_type @ ''~'';
          ms = first_loop breed_name_lower species_prefix breeds
      in if ms = [] then
           (let breed_labels = build_breed_labels species_prefix breeds []
            in if breed_labels \<noteq> [] then
                 (case fuzzy_loop breed_labels
                         (process_extract scorer breed_name (map fst breed_labels) 5) of
                    Inl e \<Rightarrow> Inl e
                  | Inr fs \<Rightarrow> Inr \<lparr>matches = fs, count = length fs\<rparr>)
               else Inr \<lparr>matches = [], count = 0\<rparr>)
         else Inr \<lparr>matches = ms, count = length ms\<rparr>)"

definition search_breeds ::
  "(string \<Rightarrow> string \<Rightarrow> rat) \<Rightarrow> table option \<Rightarrow> world \<Rightarrow> string \<Rightarrow> string
     \<Rightarrow> (error + search_result) \<times> world" where
  "search_breeds scorer disk w breed_name species_type =
     (case load_breeds_cache disk w of
        (Inl e, w') \<Rightarrow> (Inl e, w')
      | (Inr breeds, w') \<Rightarrow> (search_table scorer breeds breed_name species_type, w'))"

subsection \<open>The decision\<close>

text \<open>Decimal digits of a number, for the f-string of the message.\<close>

fun str_nat :: "nat \<Rightarrow> string" where
  "str_nat n = (if n < 10 then [char_of (48 + n)] else str_nat (n div 10) @ [char_of (48 + n mod 10)])"

declare str_nat.simps [simp del]

definition option_of :: "match \<Rightarrow> option_entry" where
  "option_of m = \<lparr>opt_label = label m, opt_key = key m, opt_match_type = match_type m\<rparr>"

definition multiple_message :: "nat \<Rightarrow> string \<Rightarrow> string" where
  "multiple_message n breed_name =
     ''Found '' @ str_nat n @ '' breeds matching '' @ quote @ breed_name @ quote
       @ ''. Please specify which breed you meant.''"

definition resolve_breed_code ::
  "(string \<Rightarrow> string \<Rightarrow> rat) \<Rightarrow> table option \<Rightarrow> world \<Rightarrow> string \<Rightarrow> string
     \<Rightarrow> (error + resolution) \<times> world" where
  "resolve_breed_code scorer disk w species_type breed_name =
     (if species_type = [] then (Inl SpeciesRequired, w)
      else
        (let species = lower species_type
         in if species \<noteq> ''dog'' \<and> species \<noteq> ''cat'' then (Inl SpeciesNotDogOrCat, w)
            else if breed_name = [] then (Inl BreedRequired, w)
            else
              (case search_breeds scorer disk w breed_name species of
                 (Inl e, w') \<Rightarrow> (Inl e, w')
               | (Inr sr, w') \<Rightarrow>
                   (if count sr = 0 then Inl (NoBreedsFound breed_name species)
                    else if count sr = 1 then
                      (case matches sr of
                         [] \<Rightarrow> Inl IndexError
                       | m # _ \<Rightarrow> Inr (Resolved (breed_id m) (label m) (key m)))
                    else
                      Inr (Ambiguous (count sr) (map option_of (matches sr))
                             (multiple_message (count sr) breed_name)),
                    w'))))"

subsection \<open>Notions used to state the properties\<close>

text \<open>
  A record passes both guards of the loops: its \<^verbatim>\<open>HealthyPaws\<close> identifier is present and
  non-empty and its \<^verbatim>\<open>PrudentPet\<close> identifier starts with the species prefix.
\<close>

definition eligible :: "string \<Rightarrow> breed_data \<Rightarrow> bool" where
  "eligible species_prefix bd =
     (case get_providers bd ''HealthyPaws'' of
        None \<Rightarrow> False
      | Some v \<Rightarrow> v \<noteq> [] \<and> prefix species_prefix (get_prudent_pet (get_providers bd)))"

definition healthy_paws_id :: "breed_data \<Rightarrow> string" where
  "healthy_paws_id bd = (case get_providers bd ''HealthyPaws'' of None \<Rightarrow> [] | Some v \<Rightarrow> v)"

text \<open>The two tests of the first loop, on a table entry and the normalised query.\<close>

definition exact_match :: "string \<Rightarrow> string \<times> breed_data \<Rightarrow> bool" where
  "exact_match q r = (lower (get_label (snd r)) = q \<or> fst r = q)"

definition partial_match :: "string \<Rightarrow> string \<times> breed_data \<Rightarrow> bool" where
  "partial_match q r = (sublist q (lower (get_label (snd r))) \<or> sublist q (fst r))"

text \<open>The dict the first loop appends for a table entry.\<close>

definition candidate :: "match_type \<Rightarrow> string \<times> breed_data \<Rightarrow> match" where
  "candidate t r =
     \<lparr>key = fst r, label = get_label (snd r), breed_id = healthy_paws_id (snd r),
      match_type = t, score = None\<rparr>"

text \<open>
  The labels of the eligible records in table order, and a list without its repetitions,
  every element at the place of its first occurrence.
\<close>

definition eligible_labels :: "string \<Rightarrow> table \<Rightarrow> string list" where
  "eligible_labels species_prefix breeds =
     map (\<lambda>r. get_label (snd r)) (filter (\<lambda>r. eligible species_prefix (snd r)) breeds)"

fun first_occurrences :: "'a list \<Rightarrow> 'a list" where
  "first_occurrences [] = []"
| "first_occurrences (x # xs) = x # first_occurrences (filter (\<lambda>y. y \<noteq> x) xs)"

text \<open>
  The error kinds of the specification, by raise site: a missing species and a species
  other than dog or cat are both \<open>InvalidSpecies\<close>.
\<close>

datatype error_kind = InvalidSpecies | InvalidQuery | NotFound | DataUnavailable

fun spec_kind :: "error \<Rightarrow> error_kind option" where
  "spec_kind SpeciesRequired = Some InvalidSpecies"
| "spec_kind SpeciesNotDogOrCat = Some InvalidSpecies"
| "spec_kind BreedRequired = Some InvalidQuery"
| "spec_kind (NoBreedsFound breed_name species) = Some NotFound"
| "spec_kind DatasetUnreadable = Some DataUnavailable"
| "spec_kind KeyError = None"
| "spec_kind IndexError = None"

text \<open>The keys of the candidates a result of \<^const>\<open>resolve_breed_code\<close> carries.\<close>

fun result_keys :: "error + resolution \<Rightarrow> string set" where
  "result_keys (Inl e) = {}"
| "result_keys (Inr (Resolved b l k)) = {k}"
| "result_keys (Inr (Ambiguous n os msg)) = opt_key ` set os"

subsection \<open>Example tables\<close>

definition example_record :: "string \<Rightarrow> string \<Rightarrow> string \<Rightarrow> breed_data" where
  "example_record l hp pp =
     \<lparr>data_label = Some l,
      data_providers = Some [''HealthyPaws'' \<mapsto> hp, ''PrudentPet'' \<mapsto> pp]\<rparr>"

text \<open>Two dog breeds, one label containing the other, and a cat entry with a dog's label.\<close>

definition poodle_table :: table where
  "poodle_table =
     [(''poodle'', example_record ''Poodle'' ''101'' ''Dog~Poodle''),
      (''toy-poodle'', example_record ''Toy Poodle'' ''102'' ''Dog~Toy Poodle''),
      (''poodle-cat'', example_record ''Poodle'' ''901'' ''Cat~Poodle'')]"

text \<open>Two eligible dog entries that share the label \<^verbatim>\<open>Poodle\<close>.\<close>

definition shared_label_table :: table where
  "shared_label_table =
     [(''standard-poodle'', example_record ''Poodle'' ''201'' ''Dog~Standard Poodle''),
      (''miniature-poodle'', example_record ''Poodle'' ''202'' ''Dog~Miniature Poodle'')]"

text \<open>One eligible dog entry without a \<^verbatim>\<open>label\<close>.\<close>

definition unlabelled_table :: table where
  "unlabelled_table =
     [(''mixed-breed'',
       \<lparr>data_label = None,
        data_providers = Some [''HealthyPaws'' \<mapsto> ''401'', ''PrudentPet'' \<mapsto> ''Dog~Mixed'']\<rparr>)]"

definition labrador_table :: table where
  "labrador_table =
     [(''labrador-retriever'',
       example_record ''Labrador Retriever'' ''301'' ''Dog~Labrador Retriever'')]"

text \<open>
  A scorer for the examples. The one pair that is scored above the threshold is the
  misspelling \<^verbatim>\<open>Poodel\<close> against \<^verbatim>\<open>Poodle\<close>: the strings have length 6 each and a longest
  common subsequence of length 5, so \<^verbatim>\<open>token_sort_ratio\<close> gives 100 * (2 * 5) / 12.
\<close>

definition example_scorer :: "string \<Rightarrow> string \<Rightarrow> rat" where
  "example_scorer query choice = (if query = ''Poodel'' \<and> choice = ''Poodle'' then 250 / 3 else 0)"

text \<open>The process before the first load.\<close>

definition cold_world :: world where
  "cold_world = \<lparr>BREEDS_CACHE = None, file_opens = 0\<rparr>"

section \<open>Properties\<close>

subsection \<open>The loader\<close>

lemma load_cached:
  "BREEDS_CACHE w = Some t \<Longrightarrow> load_breeds_cache disk w = (Inr t, w)"
  by (simp add: load_breeds_cache_def)

lemma load_Inr:
  assumes "load_breeds_cache disk w = (Inr t, w1)"
  shows "BREEDS_CACHE w1 = Some t"
  using assms by (auto simp: load_breeds_cache_def split: option.splits)

lemma load_Inl:
  assumes "load_breeds_cache disk w = (Inl e, w1)"
  shows "e = DatasetUnreadable"
  using assms by (auto simp: load_breeds_cache_def split: option.splits)

subsection \<open>String methods on blank queries and species\<close>

lemma lower_char_space: "isspace c \<Longrightarrow> lower_char c = c"
  by (auto simp: isspace_def lower_char_def Let_def)

lemma strip_lower_blank:
  assumes "\<forall>c\<in>set q. isspace c"
  shows "strip (lower q) = []"
proof -
  have "lower q = q" unfolding lower_def using assms lower_char_space by (simp add: map_idI)
  moreover have "dropWhile isspace q = []" using assms by simp
  ultimately show ?thesis unfolding strip_def by (simp only: rev.simps dropWhile.simps)
qed

lemma lower_dog: "lower ''dog'' = ''dog''"
  by code_simp

lemma tag_cases:
  assumes "lower sp = ''dog'' \<or> lower sp = ''cat''"
  shows "(lower sp = ''dog'' \<longrightarrow> capitalize (lower sp) @ ''~'' = ''Dog~'') \<and>
         (lower sp = ''cat'' \<longrightarrow> capitalize (lower sp) @ ''~'' = ''Cat~'')"
proof -
  have "capitalize ''dog'' @ ''~'' = ''Dog~''" by code_simp
  moreover have "capitalize ''cat'' @ ''~'' = ''Cat~''" by code_simp
  ultimately show ?thesis by simp
qed

subsection \<open>The first loop\<close>

lemma eligible_iff:
  "eligible pre bd \<longleftrightarrow>
     get_providers bd ''HealthyPaws'' = Some (healthy_paws_id bd) \<and> healthy_paws_id bd \<noteq> [] \<and>
     prefix pre (get_prudent_pet (get_providers bd))"
  by (cases "get_providers bd ''HealthyPaws''") (simp_all add: eligible_def healthy_paws_id_def)

lemma first_loop_eq:
  "first_loop q sp breeds =
     map (\<lambda>r. candidate (if exact_match q r then Exact else Partial) r)
       (filter (\<lambda>r. eligible sp (snd r) \<and> (exact_match q r \<or> partial_match q r)) breeds)"
proof (induction breeds)
  case Nil
  show ?case by simp
next
  case (Cons r rest)
  obtain k bd where r: "r = (k, bd)" by (cases r)
  show ?case
    unfolding r using Cons.IH
    by (cases "get_providers bd ''HealthyPaws''")
       (simp_all add: eligible_def exact_match_def partial_match_def candidate_def healthy_paws_id_def)
qed

lemma first_loop_not_fuzzy:
  "m \<in> set (first_loop q pre breeds) \<Longrightarrow> match_type m \<noteq> Fuzzy"
  by (auto simp: first_loop_eq candidate_def split: if_splits)

lemma first_loop_backed:
  assumes "m \<in> set (first_loop q pre breeds)"
  shows "\<exists>bd. (key m, bd) \<in> set breeds \<and> eligible pre bd \<and> get_label bd = label m \<and>
              healthy_paws_id bd = breed_id m"
proof -
  from assms obtain r where r: "r \<in> set breeds" "eligible pre (snd r)"
    "m = candidate (if exact_match q r then Exact else Partial) r"
    by (auto simp: first_loop_eq)
  obtain k bd where kb: "r = (k, bd)" by (cases r)
  with r show ?thesis by (intro exI[of _ bd]) (simp add: candidate_def)
qed

lemma exact_match_Nil: "exact_match [] r \<longleftrightarrow> get_label (snd r) = [] \<or> fst r = []"
  by (simp add: exact_match_def lower_def)

lemma partial_match_Nil: "partial_match [] r"
  by (simp add: partial_match_def)

subsection \<open>The library call\<close>

lemma process_extract_length: "length (process_extract scorer q choices n) \<le> n"
  by (simp add: process_extract_def)

lemma process_extract_mem:
  assumes "(c, s, i) \<in> set (process_extract scorer q choices n)"
  shows "c \<in> set choices \<and> s = scorer q c"
proof -
  from assms have "(c, s, i) \<in> set (map (\<lambda>(i, choice). (choice, scorer q choice, i)) (enumerate 0 choices))"
    unfolding process_extract_def by (auto dest: in_set_takeD)
  then show ?thesis by (auto simp: in_set_enumerate_eq)
qed

lemma process_extract_sorted:
  "sorted_wrt (\<lambda>a b. a \<ge> b) (map (\<lambda>(c, s, i). s) (process_extract scorer q choices n))"
proof -
  let ?xs = "sort_key (\<lambda>(choice, s, i). - s)
               (map (\<lambda>(i, choice). (choice, scorer q choice, i)) (enumerate 0 choices))"
  have "sorted (map (\<lambda>(choice, s, i). - s) ?xs)" by (rule sorted_sort_key)
  then have "sorted (map (\<lambda>(choice, s, i). - s) (take n ?xs))"
    by (simp add: take_map[symmetric] sorted_wrt_take)
  then have "sorted_wrt (\<lambda>a b. a \<ge> b) (map (\<lambda>(c, s, i). s) (take n ?xs))"
    by (simp add: sorted_wrt_map case_prod_beta)
  then show ?thesis by (simp add: process_extract_def)
qed

lemma process_extract_choices:
  "distinct choices \<Longrightarrow> distinct (map fst (process_extract scorer q choices n))"
proof -
  assume d: "distinct choices"
  let ?xs = "map (\<lambda>(i, choice). (choice, scorer q choice, i)) (enumerate 0 choices)"
  have m: "map fst ?xs = choices"
    by (simp add: case_prod_beta comp_def map_snd_enumerate[unfolded comp_def])
  with d have "distinct (map fst ?xs)" by simp
  then have "distinct (map fst (sort_key (\<lambda>(choice, s, i). - s) ?xs))"
    by (simp only: distinct_map distinct_sort set_sort) 
  then have "distinct (take n (map fst (sort_key (\<lambda>(choice, s, i). - s) ?xs)))"
    by (rule distinct_take)
  then show ?thesis by (simp add: process_extract_def take_map)
qed

subsection \<open>The label dict and the third loop\<close>

lemma build_step:
  "build_breed_labels sp ((k, bd) # rest) acc =
     build_breed_labels sp rest
       (if eligible sp bd
        then AList.update (get_label bd)
               \<lparr>info_key = k, info_breed_id = healthy_paws_id bd, info_label = get_label bd\<rparr> acc
        else acc)"
  by (cases "get_providers bd ''HealthyPaws''") (simp_all add: eligible_def healthy_paws_id_def)

lemma build_breed_labels_map_of:
  assumes "map_of (build_breed_labels sp breeds acc) l = Some info"
  shows "(\<exists>pre k bd post. breeds = pre @ (k, bd) # post \<and> eligible sp bd \<and> get_label bd = l \<and>
            info = \<lparr>info_key = k, info_breed_id = healthy_paws_id bd, info_label = l\<rparr> \<and>
            (\<forall>r\<in>set post. eligible sp (snd r) \<longrightarrow> get_label (snd r) \<noteq> l))
         \<or> (map_of acc l = Some info \<and> (\<forall>r\<in>set breeds. eligible sp (snd r) \<longrightarrow> get_label (snd r) \<noteq> l))"
  using assms
proof (induction breeds arbitrary: acc)
  case Nil
  then show ?case by simp
next
  case (Cons r rest)
  obtain k bd where r: "r = (k, bd)" by (cases r)
  let ?new = "\<lparr>info_key = k, info_breed_id = healthy_paws_id bd, info_label = get_label bd\<rparr>"
  let ?acc = "if eligible sp bd then AList.update (get_label bd) ?new acc else acc"
  from Cons.prems have "map_of (build_breed_labels sp rest ?acc) l = Some info"
    unfolding r build_step .
  from Cons.IH[OF this] consider
    (later) pre k' bd' post where "rest = pre @ (k', bd') # post" "eligible sp bd'" "get_label bd' = l"
        "info = \<lparr>info_key = k', info_breed_id = healthy_paws_id bd', info_label = l\<rparr>"
        "\<forall>r\<in>set post. eligible sp (snd r) \<longrightarrow> get_label (snd r) \<noteq> l"
    | (here) "map_of ?acc l = Some info" "\<forall>r\<in>set rest. eligible sp (snd r) \<longrightarrow> get_label (snd r) \<noteq> l"
    by blast
  then show ?case
  proof cases
    case later
    then have "r # rest = (r # pre) @ (k', bd') # post" by simp
    with later show ?thesis by blast
  next
    case here
    show ?thesis
    proof (cases "eligible sp bd \<and> get_label bd = l")
      case True
      with here(1) have "info = \<lparr>info_key = k, info_breed_id = healthy_paws_id bd, info_label = l\<rparr>"
        by (simp add: update_conv')
      moreover have "r # rest = [] @ (k, bd) # rest" by (simp add: r)
      ultimately show ?thesis using True here(2) by blast
    next
      case False
      with here(1) have "map_of acc l = Some info"
        by (auto simp: update_conv' split: if_splits)
      with False here(2) show ?thesis by (auto simp: r)
    qed
  qed
qed

lemma fuzzy_loop_ok:
  assumes "\<forall>x\<in>set rs. fst x \<in> fst ` set bl"
  shows "\<exists>ms. fuzzy_loop bl rs = Inr ms \<and>
           map score ms = map Some (filter (\<lambda>s. s > 70) (map (\<lambda>(c, s, i). s) rs)) \<and>
           (\<forall>m\<in>set ms. match_type m = Fuzzy \<and>
              (\<exists>c s i info. (c, s, i) \<in> set rs \<and> s > 70 \<and> score m = Some s \<and>
                 map_of bl c = Some info \<and> key m = info_key info \<and> label m = info_label info \<and>
                 breed_id m = info_breed_id info))"
  using assms
proof (induction rs)
  case Nil
  then show ?case by simp
next
  case (Cons x rs)
  obtain c s i where x: "x = (c, s, i)" by (cases x)
  from Cons.prems have "c \<in> fst ` set bl" by (simp add: x)
  then obtain info where info: "map_of bl c = Some info"
    by (metis domD dom_map_of_conv_image_fst)
  from Cons obtain ms where ms: "fuzzy_loop bl rs = Inr ms"
    "map score ms = map Some (filter (\<lambda>s. s > 70) (map (\<lambda>(c, s, i). s) rs))"
    "\<forall>m\<in>set ms. match_type m = Fuzzy \<and>
              (\<exists>c s i info. (c, s, i) \<in> set rs \<and> s > 70 \<and> score m = Some s \<and>
                 map_of bl c = Some info \<and> key m = info_key info \<and> label m = info_label info \<and>
                 breed_id m = info_breed_id info)"
    by auto
  show ?case
  proof (cases "s > 70")
    case True
    let ?m = "\<lparr>key = info_key info, label = info_label info,
                        breed_id = info_breed_id info, match_type = Fuzzy, score = Some s\<rparr>"
    have "fuzzy_loop bl (x # rs) = Inr (?m # ms)" using True info ms(1) by (simp add: x)
    moreover have "map score (?m # ms) = map Some (filter (\<lambda>s. s > 70) (map (\<lambda>(c, s, i). s) (x # rs)))"
      using True ms(2) by (simp add: x)
    moreover have "\<forall>m\<in>set (?m # ms). match_type m = Fuzzy \<and>
              (\<exists>c s i info. (c, s, i) \<in> set (x # rs) \<and> s > 70 \<and> score m = Some s \<and>
                 map_of bl c = Some info \<and> key m = info_key info \<and> label m = info_label info \<and>
                 breed_id m = info_breed_id info)"
    proof
      fix m assume "m \<in> set (?m # ms)"
      then consider "m = ?m" | "m \<in> set ms" by auto
      then show "match_type m = Fuzzy \<and>
              (\<exists>c s i info. (c, s, i) \<in> set (x # rs) \<and> s > 70 \<and> score m = Some s \<and>
                 map_of bl c = Some info \<and> key m = info_key info \<and> label m = info_label info \<and>
                 breed_id m = info_breed_id info)"
      proof cases
        case 1
        have "(c, s, i) \<in> set (x # rs)" by (simp add: x)
        with 1 True info show ?thesis by (intro conjI exI[of _ c] exI[of _ s] exI[of _ i] exI[of _ info]) simp_all
      next
        case 2
        with ms(3) show ?thesis by (metis list.set_intros(2))
      qed
    qed
    ultimately show ?thesis by blast
  next
    case False
    have "fuzzy_loop bl (x # rs) = Inr ms" using False ms(1) by (simp add: x)
    moreover have "map score ms = map Some (filter (\<lambda>s. s > 70) (map (\<lambda>(c, s, i). s) (x # rs)))"
      using False ms(2) by (simp add: x)
    moreover have "\<forall>m\<in>set ms. match_type m = Fuzzy \<and>
              (\<exists>c s i info. (c, s, i) \<in> set (x # rs) \<and> s > 70 \<and> score m = Some s \<and>
                 map_of bl c = Some info \<and> key m = info_key info \<and> label m = info_label info \<and>
                 breed_id m = info_breed_id info)"
      using ms(3) by (metis list.set_intros(2))
    ultimately show ?thesis by blast
  qed
qed

lemma fuzzy_loop_length:
  "fuzzy_loop bl rs = Inr ms \<Longrightarrow> length ms \<le> length rs"
proof (induction rs arbitrary: ms)
  case Nil
  then show ?case by simp
next
  case (Cons x rs)
  obtain c s i where x: "x = (c, s, i)" by (cases x)
  from Cons show ?case
    by (auto simp: x split: if_splits option.splits sum.splits)
qed

lemma first_occurrences_filter:
  "first_occurrences (filter P xs) = filter P (first_occurrences xs)"
proof (induction xs rule: first_occurrences.induct)
  case 1
  show ?case by simp
next
  case (2 x xs)
  have swap: "filter (\<lambda>y. y \<noteq> x) (filter P xs) = filter P (filter (\<lambda>y. y \<noteq> x) xs)"
    by (simp add: conj_commute)
  show ?case
  proof (cases "P x")
    case True
    with 2 swap show ?thesis by simp
  next
    case False
    then have "filter P (filter (\<lambda>y. y \<noteq> x) xs) = filter P xs"
      by (auto intro: filter_cong)
    with False 2 show ?thesis by simp
  qed
qed

lemma set_first_occurrences: "set (first_occurrences xs) = set xs"
  by (induction xs rule: first_occurrences.induct) auto

lemma distinct_first_occurrences: "distinct (first_occurrences xs)"
  by (induction xs rule: first_occurrences.induct) (auto simp: set_first_occurrences)

lemma build_breed_labels_keys:
  "map fst (build_breed_labels sp breeds acc) =
     map fst acc @ filter (\<lambda>l. l \<notin> fst ` set acc) (first_occurrences (eligible_labels sp breeds))"
proof (induction breeds arbitrary: acc)
  case Nil
  show ?case by (simp add: eligible_labels_def)
next
  case (Cons r rest)
  obtain k bd where r: "r = (k, bd)" by (cases r)
  let ?F = "first_occurrences (eligible_labels sp rest)"
  show ?case
  proof (cases "eligible sp bd")
    case False
    then have "eligible_labels sp (r # rest) = eligible_labels sp rest"
      by (simp add: eligible_labels_def r)
    with False Cons.IH[of acc] show ?thesis by (simp add: r build_step del: build_breed_labels.simps)
  next
    case True
    let ?l = "get_label bd"
    let ?v = "\<lparr>info_key = k, info_breed_id = healthy_paws_id bd, info_label = ?l\<rparr>"
    have el: "eligible_labels sp (r # rest) = ?l # eligible_labels sp rest"
      using True by (simp add: eligible_labels_def r)
    have fo: "first_occurrences (eligible_labels sp (r # rest)) = ?l # filter (\<lambda>y. y \<noteq> ?l) ?F"
      unfolding el by (simp add: first_occurrences_filter)
    have step: "map fst (build_breed_labels sp (r # rest) acc)
                  = map fst (AList.update ?l ?v acc)
                    @ filter (\<lambda>l. l \<notin> fst ` set (AList.update ?l ?v acc)) ?F"
      using True Cons.IH[of "AList.update ?l ?v acc"] by (simp add: r build_step del: build_breed_labels.simps)
    show ?thesis
    proof (cases "?l \<in> fst ` set acc")
      case True
      then have keys: "map fst (AList.update ?l ?v acc) = map fst acc"
        by (simp add: update_keys)
      have dom: "fst ` set (AList.update ?l ?v acc) = fst ` set acc"
        using True by (auto simp: dom_update)
      have "filter (\<lambda>l. l \<notin> fst ` set acc) (?l # filter (\<lambda>y. y \<noteq> ?l) ?F)
              = filter (\<lambda>l. l \<notin> fst ` set acc) ?F"
        using True by (auto intro: filter_cong)
      with step keys dom fo show ?thesis by simp
    next
      case False
      then have keys: "map fst (AList.update ?l ?v acc) = map fst acc @ [?l]"
        by (simp add: update_keys)
      have dom: "fst ` set (AList.update ?l ?v acc) = insert ?l (fst ` set acc)"
        by (auto simp: dom_update)
      have "filter (\<lambda>l. l \<notin> insert ?l (fst ` set acc)) ?F
              = filter (\<lambda>l. l \<notin> fst ` set acc) (filter (\<lambda>y. y \<noteq> ?l) ?F)"
        by (auto intro: filter_cong)
      with step keys dom fo False show ?thesis by simp
    qed
  qed
qed

lemma build_breed_labels_label:
  assumes "map_of (build_breed_labels sp breeds []) l = Some info"
  shows "info_label info = l"
  using build_breed_labels_map_of[OF assms] by auto

lemma fuzzy_loop_labels:
  assumes "\<forall>x\<in>set rs. \<forall>info. map_of bl (fst x) = Some info \<longrightarrow> info_label info = fst x"
    and "fuzzy_loop bl rs = Inr ms"
  shows "map label ms = map fst (filter (\<lambda>(c, s, i). 70 < s) rs)"
  using assms
proof (induction rs arbitrary: ms)
  case Nil
  then show ?case by simp
next
  case (Cons x rs)
  obtain c s i where x: "x = (c, s, i)" by (cases x)
  show ?case
  proof (cases "70 < s")
    case False
    with Cons show ?thesis by (simp add: x)
  next
    case True
    with Cons.prems(2) obtain info ms' where
      i: "map_of bl c = Some info" "fuzzy_loop bl rs = Inr ms'"
         "ms = \<lparr>key = info_key info, label = info_label info,
                breed_id = info_breed_id info, match_type = Fuzzy, score = Some s\<rparr> # ms'"
      by (auto simp: x split: option.splits sum.splits)
    from Cons.prems(1) i(1) have "info_label info = c" by (simp add: x)
    moreover from Cons.IH[OF _ i(2)] Cons.prems(1)
    have "map label ms' = map fst (filter (\<lambda>(c, s, i). 70 < s) rs)" by simp
    ultimately show ?thesis using True i(3) by (simp add: x)
  qed
qed

subsection \<open>The two ways through \<^verbatim>\<open>search_breeds\<close>\<close>

lemma search_table_first:
  assumes "first_loop (strip (lower q)) (capitalize sp @ ''~'') breeds \<noteq> []"
  shows "search_table scorer breeds q sp =
           Inr \<lparr>matches = first_loop (strip (lower q)) (capitalize sp @ ''~'') breeds,
                count = length (first_loop (strip (lower q)) (capitalize sp @ ''~'') breeds)\<rparr>"
  using assms by (simp add: search_table_def Let_def)

lemma search_table_fuzzy:
  assumes "first_loop (strip (lower q)) (capitalize sp @ ''~'') breeds = []"
  shows "\<exists>ms. search_table scorer breeds q sp = Inr \<lparr>matches = ms, count = length ms\<rparr> \<and>
           length ms \<le> 5 \<and>
           (\<exists>ss. map score ms = map Some ss \<and> sorted_wrt (\<lambda>a b. a \<ge> b) ss \<and> (\<forall>s\<in>set ss. s > 70)) \<and>
           (\<forall>m\<in>set ms. match_type m = Fuzzy \<and> score m = Some (scorer q (label m)) \<and>
              scorer q (label m) > 70 \<and>
              (\<exists>pre bd post. breeds = pre @ (key m, bd) # post \<and>
                 eligible (capitalize sp @ ''~'') bd \<and> get_label bd = label m \<and>
                 healthy_paws_id bd = breed_id m \<and>
                 (\<forall>r\<in>set post. eligible (capitalize sp @ ''~'') (snd r) \<longrightarrow> get_label (snd r) \<noteq> label m)))"
proof -
  let ?pre = "capitalize sp @ ''~''"
  let ?bl = "build_breed_labels ?pre breeds []"
  let ?rs = "process_extract scorer q (map fst ?bl) 5"
  show ?thesis
  proof (cases "?bl = []")
    case True
    with assms have "search_table scorer breeds q sp = Inr \<lparr>matches = [], count = length ([] :: match list)\<rparr>"
      by (simp add: search_table_def Let_def)
    then show ?thesis by (intro exI[of _ "[]"]) simp
  next
    case False
    have mem: "\<forall>x\<in>set ?rs. fst x \<in> fst ` set ?bl"
    proof
      fix x assume x: "x \<in> set ?rs"
      obtain c s i where "x = (c, s, i)" by (cases x)
      with x process_extract_mem[of c s i scorer q "map fst ?bl" 5] show "fst x \<in> fst ` set ?bl"
        by simp
    qed
    from fuzzy_loop_ok[OF mem] obtain ms where ms: "fuzzy_loop ?bl ?rs = Inr ms"
      "map score ms = map Some (filter (\<lambda>s. s > 70) (map (\<lambda>(c, s, i). s) ?rs))"
      "\<forall>m\<in>set ms. match_type m = Fuzzy \<and>
              (\<exists>c s i info. (c, s, i) \<in> set ?rs \<and> s > 70 \<and> score m = Some s \<and>
                 map_of ?bl c = Some info \<and> key m = info_key info \<and> label m = info_label info \<and>
                 breed_id m = info_breed_id info)"
      by blast
    have st: "search_table scorer breeds q sp = Inr \<lparr>matches = ms, count = length ms\<rparr>"
      using assms False ms(1) by (simp add: search_table_def Let_def)
    have len: "length ms \<le> 5"
      using fuzzy_loop_length[OF ms(1)] process_extract_length[of scorer q "map fst ?bl" 5] by linarith
    have srt: "sorted_wrt (\<lambda>a b. a \<ge> b) (filter (\<lambda>s. s > 70) (map (\<lambda>(c, s, i). s) ?rs))"
      using process_extract_sorted[of scorer q "map fst ?bl" 5] by (rule sorted_wrt_filter)
    have sc: "\<exists>ss. map score ms = map Some ss \<and> sorted_wrt (\<lambda>a b. a \<ge> b) ss \<and> (\<forall>s\<in>set ss. s > 70)"
      using ms(2) srt by (intro exI[of _ "filter (\<lambda>s. s > 70) (map (\<lambda>(c, s, i). s) ?rs)"]) simp
    have each: "\<forall>m\<in>set ms. match_type m = Fuzzy \<and> score m = Some (scorer q (label m)) \<and>
              scorer q (label m) > 70 \<and>
              (\<exists>pre bd post. breeds = pre @ (key m, bd) # post \<and>
                 eligible ?pre bd \<and> get_label bd = label m \<and>
                 healthy_paws_id bd = breed_id m \<and>
                 (\<forall>r\<in>set post. eligible ?pre (snd r) \<longrightarrow> get_label (snd r) \<noteq> label m))"
    proof
      fix m assume "m \<in> set ms"
      with ms(3) obtain c s i info where m: "match_type m = Fuzzy" "(c, s, i) \<in> set ?rs" "s > 70"
        "score m = Some s" "map_of ?bl c = Some info" "key m = info_key info"
        "label m = info_label info" "breed_id m = info_breed_id info"
        by blast
      from process_extract_mem[OF m(2)] have s: "s = scorer q c" by simp
      from build_breed_labels_map_of[OF m(5)] obtain pre k bd post where
        b: "breeds = pre @ (k, bd) # post" "eligible ?pre bd" "get_label bd = c"
           "info = \<lparr>info_key = k, info_breed_id = healthy_paws_id bd, info_label = c\<rparr>"
           "\<forall>r\<in>set post. eligible ?pre (snd r) \<longrightarrow> get_label (snd r) \<noteq> c"
        by auto
      from b(4) m(6,7,8) have km: "key m = k" "label m = c" "breed_id m = healthy_paws_id bd" by simp_all
      have "\<exists>pre bd post. breeds = pre @ (key m, bd) # post \<and>
                 eligible ?pre bd \<and> get_label bd = label m \<and>
                 healthy_paws_id bd = breed_id m \<and>
                 (\<forall>r\<in>set post. eligible ?pre (snd r) \<longrightarrow> get_label (snd r) \<noteq> label m)"
        using b(1,2,3,5) km by (intro exI[of _ pre] exI[of _ bd] exI[of _ post]) simp
      with m(1,3,4) s km(2)
      show "match_type m = Fuzzy \<and> score m = Some (scorer q (label m)) \<and>
              scorer q (label m) > 70 \<and>
              (\<exists>pre bd post. breeds = pre @ (key m, bd) # post \<and>
                 eligible ?pre bd \<and> get_label bd = label m \<and>
                 healthy_paws_id bd = breed_id m \<and>
                 (\<forall>r\<in>set post. eligible ?pre (snd r) \<longrightarrow> get_label (snd r) \<noteq> label m))"
        by simp
    qed
    from st len sc each show ?thesis by blast
  qed
qed

lemma search_table_total:
  "\<exists>ms. search_table scorer breeds q sp = Inr \<lparr>matches = ms, count = length ms\<rparr>"
proof (cases "first_loop (strip (lower q)) (capitalize sp @ ''~'') breeds = []")
  case True
  from search_table_fuzzy[OF True, of scorer] show ?thesis by blast
next
  case False
  from search_table_first[OF False, of scorer] show ?thesis by blast
qed

lemma search_table_backed:
  assumes "search_table scorer breeds q sp = Inr sr" and "m \<in> set (matches sr)"
  shows "\<exists>bd. (key m, bd) \<in> set breeds \<and> eligible (capitalize sp @ ''~'') bd \<and>
              get_label bd = label m \<and> healthy_paws_id bd = breed_id m"
proof (cases "first_loop (strip (lower q)) (capitalize sp @ ''~'') breeds = []")
  case True
  from search_table_fuzzy[OF True, of scorer] assms show ?thesis by fastforce
next
  case False
  from search_table_first[OF False, of scorer] assms
  have "m \<in> set (first_loop (strip (lower q)) (capitalize sp @ ''~'') breeds)" by simp
  then show ?thesis by (rule first_loop_backed)
qed

lemma search_table_fuzzy_labels:
  assumes "first_loop (strip (lower q)) (capitalize sp @ ''~'') breeds = []"
    and "search_table scorer breeds q sp = Inr sr"
  shows "map label (matches sr) =
           map fst (filter (\<lambda>(c, s, i). 70 < s)
             (process_extract scorer q
                (first_occurrences (eligible_labels (capitalize sp @ ''~'') breeds)) 5))"
proof -
  let ?pre = "capitalize sp @ ''~''"
  let ?bl = "build_breed_labels ?pre breeds []"
  have keys: "map fst ?bl = first_occurrences (eligible_labels ?pre breeds)"
    using build_breed_labels_keys[of ?pre breeds "[]"] by simp
  show ?thesis
  proof (cases "?bl = []")
    case True
    with keys have "first_occurrences (eligible_labels ?pre breeds) = []" by simp
    moreover from True assms have "matches sr = []"
      by (auto simp: search_table_def Let_def)
    ultimately show ?thesis by (simp add: process_extract_def)
  next
    case False
    let ?rs = "process_extract scorer q (map fst ?bl) 5"
    from False assms obtain ms where ms: "fuzzy_loop ?bl ?rs = Inr ms" "matches sr = ms"
      by (auto simp: search_table_def Let_def split: sum.splits)
    have "\<forall>x\<in>set ?rs. \<forall>info. map_of ?bl (fst x) = Some info \<longrightarrow> info_label info = fst x"
      using build_breed_labels_label by blast
    from fuzzy_loop_labels[OF this ms(1)] ms(2) keys show ?thesis by simp
  qed
qed

subsection \<open>The decision\<close>

lemma resolve_valid:
  assumes sp: "lower sp = ''dog'' \<or> lower sp = ''cat''"
    and q: "q \<noteq> []"
    and ld: "load_breeds_cache disk w = (Inr breeds, w1)"
    and st: "search_table scorer breeds q (lower sp) = Inr \<lparr>matches = ms, count = length ms\<rparr>"
  shows "resolve_breed_code scorer disk w sp q =
           (case ms of
              [] \<Rightarrow> Inl (NoBreedsFound q (lower sp))
            | [m] \<Rightarrow> Inr (Resolved (breed_id m) (label m) (key m))
            | m # m' # rest \<Rightarrow>
                Inr (Ambiguous (length ms) (map option_of ms) (multiple_message (length ms) q)),
            w1)"
proof -
  from sp have ne: "sp \<noteq> []" by (auto simp: lower_def)
  have sb: "search_breeds scorer disk w q (lower sp) = (Inr \<lparr>matches = ms, count = length ms\<rparr>, w1)"
    using ld st by (simp add: search_breeds_def)
  show ?thesis
  proof (cases ms)
    case Nil
    with sp ne q sb show ?thesis by (auto simp: resolve_breed_code_def Let_def)
  next
    case (Cons m rest)
    show ?thesis
    proof (cases rest)
      case Nil
      with Cons sp ne q sb show ?thesis by (auto simp: resolve_breed_code_def Let_def)
    next
      case (Cons m' rest')
      with \<open>ms = m # rest\<close> sp ne q sb show ?thesis by (auto simp: resolve_breed_code_def Let_def)
    qed
  qed
qed

lemma resolve_load_failure:
  assumes sp: "lower sp = ''dog'' \<or> lower sp = ''cat''"
    and q: "q \<noteq> []"
    and ld: "load_breeds_cache disk w = (Inl e, w1)"
  shows "resolve_breed_code scorer disk w sp q = (Inl e, w1)"
proof -
  from sp have ne: "sp \<noteq> []" by (auto simp: lower_def)
  with sp q ld show ?thesis by (auto simp: resolve_breed_code_def search_breeds_def Let_def)
qed

lemma resolve_not_breed_required:
  assumes sp: "lower sp = ''dog'' \<or> lower sp = ''cat''" and q: "q \<noteq> []"
  shows "fst (resolve_breed_code scorer disk w sp q) \<noteq> Inl BreedRequired"
proof -
  obtain x w1 where ld: "load_breeds_cache disk w = (x, w1)" by (cases "load_breeds_cache disk w")
  show ?thesis
  proof (cases x)
    case (Inl e)
    with ld load_Inl have "e = DatasetUnreadable" by blast
    with resolve_load_failure[OF sp q, of disk w e w1 scorer] ld Inl show ?thesis by simp
  next
    case (Inr breeds)
    from search_table_total obtain ms where
      st: "search_table scorer breeds q (lower sp) = Inr \<lparr>matches = ms, count = length ms\<rparr>"
      by blast
    from ld Inr have ld': "load_breeds_cache disk w = (Inr breeds, w1)" by simp
    note r = resolve_valid[OF sp q ld' st]
    show ?thesis
    proof (cases ms)
      case Nil
      with r show ?thesis by simp
    next
      case (Cons m rest)
      with r show ?thesis by (cases rest) simp_all
    qed
  qed
qed

lemma resolve_backed:
  assumes sp: "lower sp = ''dog'' \<or> lower sp = ''cat''"
    and q: "q \<noteq> []"
    and ld: "load_breeds_cache disk w = (Inr breeds, w1)"
  shows "(\<forall>b l k. fst (resolve_breed_code scorer disk w sp q) = Inr (Resolved b l k) \<longrightarrow>
            (\<exists>bd. (k, bd) \<in> set breeds \<and> eligible (capitalize (lower sp) @ ''~'') bd \<and>
                  get_label bd = l \<and> healthy_paws_id bd = b)) \<and>
         (\<forall>n os msg. fst (resolve_breed_code scorer disk w sp q) = Inr (Ambiguous n os msg) \<longrightarrow>
            (\<forall>opt\<in>set os. \<exists>bd. (opt_key opt, bd) \<in> set breeds \<and>
                  eligible (capitalize (lower sp) @ ''~'') bd \<and> get_label bd = opt_label opt))"
proof -
  let ?pre = "capitalize (lower sp) @ ''~''"
  from search_table_total obtain ms where
    st: "search_table scorer breeds q (lower sp) = Inr \<lparr>matches = ms, count = length ms\<rparr>"
    by blast
  have backed: "\<exists>bd. (key m, bd) \<in> set breeds \<and> eligible ?pre bd \<and>
              get_label bd = label m \<and> healthy_paws_id bd = breed_id m" if "m \<in> set ms" for m
    using search_table_backed[OF st] that by simp
  note r = resolve_valid[OF sp q ld st]
  show ?thesis
  proof (cases ms)
    case Nil
    with r show ?thesis by simp
  next
    case (Cons m rest)
    show ?thesis
    proof (cases rest)
      case Nil
      with Cons r have "fst (resolve_breed_code scorer disk w sp q) = Inr (Resolved (breed_id m) (label m) (key m))"
        by simp
      moreover have "m \<in> set ms" using Cons by simp
      ultimately show ?thesis using backed by auto
    next
      case (Cons m' rest')
      with \<open>ms = m # rest\<close> r
      have R: "fst (resolve_breed_code scorer disk w sp q)
                 = Inr (Ambiguous (length ms) (map option_of ms) (multiple_message (length ms) q))"
        by simp
      have "\<forall>opt\<in>set (map option_of ms). \<exists>bd. (opt_key opt, bd) \<in> set breeds \<and>
                  eligible ?pre bd \<and> get_label bd = opt_label opt"
      proof
        fix opt assume "opt \<in> set (map option_of ms)"
        then obtain m0 where m0: "m0 \<in> set ms" "opt = option_of m0" by auto
        from backed[OF m0(1)] m0(2) show "\<exists>bd. (opt_key opt, bd) \<in> set breeds \<and>
                  eligible ?pre bd \<and> get_label bd = opt_label opt"
          by (auto simp: option_of_def)
      qed
      with R show ?thesis by simp
    qed
  qed
qed

lemma resolve_keys_backed:
  assumes sp: "lower sp = ''dog'' \<or> lower sp = ''cat''"
    and q: "q \<noteq> []"
    and ld: "load_breeds_cache disk w = (Inr breeds, w1)"
    and k: "k \<in> result_keys (fst (resolve_breed_code scorer disk w sp q))"
  shows "\<exists>bd. (k, bd) \<in> set breeds \<and> eligible (capitalize (lower sp) @ ''~'') bd"
proof (cases "fst (resolve_breed_code scorer disk w sp q)")
  case (Inl e)
  with k show ?thesis by simp
next
  case (Inr res)
  show ?thesis
  proof (cases res)
    case (Resolved b l k')
    with Inr k resolve_backed[OF sp q ld, of scorer] show ?thesis by auto
  next
    case (Ambiguous n os msg)
    with Inr k obtain opt where "opt \<in> set os" "k = opt_key opt" by auto
    with Inr Ambiguous resolve_backed[OF sp q ld, of scorer] show ?thesis by blast
  qed
qed

subsection \<open>Evaluations on the example tables\<close>

lemma cold_load:
  "load_breeds_cache (Some t) cold_world = (Inr t, \<lparr>BREEDS_CACHE = Some t, file_opens = 1\<rparr>)"
  by (simp add: load_breeds_cache_def cold_world_def)

lemma poodle_search:
  "search_table example_scorer poodle_table ''Poodle'' ''dog'' =
     Inr \<lparr>matches =
           [\<lparr>key = ''poodle'', label = ''Poodle'', breed_id = ''101'', match_type = Exact, score = None\<rparr>,
            \<lparr>key = ''toy-poodle'', label = ''Toy Poodle'', breed_id = ''102'', match_type = Partial, score = None\<rparr>],
          count = 2\<rparr>"
  by code_simp

lemma toy_poodle_search:
  "search_table example_scorer poodle_table ''Toy Poodle'' (lower ''dog'') =
     Inr \<lparr>matches =
           [\<lparr>key = ''toy-poodle'', label = ''Toy Poodle'', breed_id = ''102'', match_type = Exact, score = None\<rparr>],
          count = 1\<rparr>"
  by code_simp

lemma zebra_search:
  "search_table example_scorer poodle_table ''Zebra'' (lower ''dog'') = Inr \<lparr>matches = [], count = 0\<rparr>"
  by code_simp

lemma poodle_eligible:
  "eligible (capitalize ''dog'' @ ''~'') (example_record ''Poodle'' ''101'' ''Dog~Poodle'')"
  by code_simp

lemma poodle_cat_not_dog:
  "\<not> prefix (capitalize (lower ''dog'') @ ''~'')
       (get_prudent_pet (get_providers (example_record ''Poodle'' ''901'' ''Cat~Poodle'')))"
  by code_simp

lemma shared_label_first_loop:
  "first_loop (strip (lower ''Poodel'')) (capitalize ''dog'' @ ''~'') shared_label_table = []"
  by code_simp

lemma shared_label_search:
  "search_table example_scorer shared_label_table ''Poodel'' ''dog'' =
     Inr \<lparr>matches =
           [\<lparr>key = ''miniature-poodle'', label = ''Poodle'', breed_id = ''202'',
             match_type = Fuzzy, score = Some (250 / 3)\<rparr>],
          count = 1\<rparr>"
  by code_simp

lemma shared_label_first_occurrences:
  "first_occurrences (eligible_labels (capitalize ''dog'' @ ''~'') shared_label_table) = [''Poodle'']"
  by code_simp

lemma poodel_first_loop:
  "first_loop (strip (lower ''Poodel'')) (capitalize (lower ''dog'') @ ''~'') shared_label_table = []"
  by code_simp

lemma poodel_search:
  "search_table example_scorer shared_label_table ''Poodel'' (lower ''dog'') =
     Inr \<lparr>matches =
           [\<lparr>key = ''miniature-poodle'', label = ''Poodle'', breed_id = ''202'',
             match_type = Fuzzy, score = Some (250 / 3)\<rparr>],
          count = 1\<rparr>"
  by code_simp

lemma zebra_first_loop:
  "first_loop (strip (lower ''Zebra'')) (capitalize (lower ''dog'') @ ''~'') shared_label_table = []"
  by code_simp

lemma labrador_first_loop:
  "first_loop (strip (lower ''Labrador Retriever'')) (capitalize (lower ''dog'') @ ''~'') labrador_table \<noteq> []"
  by code_simp

lemma labrador_normalised:
  "strip (lower ''Labrador Retriever'') = strip (lower ''  labrador retriever '')"
  by code_simp

lemma labrador_resolved:
  "fst (resolve_breed_code example_scorer (Some labrador_table) cold_world ''dog'' ''Labrador Retriever'')
     = Inr (Resolved ''301'' ''Labrador Retriever'' ''labrador-retriever'')"
  by code_simp

lemma labrador_eligible:
  "eligible (capitalize (lower ''dog'') @ ''~'')
     (example_record ''Labrador Retriever'' ''301'' ''Dog~Labrador Retriever'')"
  by code_simp

lemma labrador_blank_resolved:
  "fst (resolve_breed_code example_scorer (Some labrador_table) cold_world ''dog'' ''   '')
     = Inr (Resolved ''301'' ''Labrador Retriever'' ''labrador-retriever'')"
  by code_simp

section \<open>The claims\<close>

subsection \<open>C1: an exact match and the other phases\<close>

text \<open>
  C1, as amended. When an eligible record matches the query exactly, the search returns
  the list the first loop built and no fuzzy candidate: in table order, an exact candidate
  for every eligible record that matches exactly (the given one among them) and a partial
  candidate for every other eligible record whose lower-cased label or key contains the
  normalised query.
\<close>

theorem C1_exact_excludes_fuzzy:
  assumes "r \<in> set breeds"
    and "eligible (capitalize species_type @ ''~'') (snd r)"
    and "exact_match (strip (lower breed_name)) r"
  shows "\<exists>ms. search_table scorer breeds breed_name species_type
                 = Inr \<lparr>matches = ms, count = length ms\<rparr> \<and>
           ms = map (\<lambda>r. candidate (if exact_match (strip (lower breed_name)) r then Exact else Partial) r)
                  (filter (\<lambda>r. eligible (capitalize species_type @ ''~'') (snd r) \<and>
                               (exact_match (strip (lower breed_name)) r \<or>
                                partial_match (strip (lower breed_name)) r)) breeds) \<and>
           candidate Exact r \<in> set ms \<and>
           (\<forall>m\<in>set ms. match_type m \<noteq> Fuzzy)"
proof -
  let ?q = "strip (lower breed_name)" and ?pre = "capitalize species_type @ ''~''"
  let ?ms = "first_loop ?q ?pre breeds"
  have mem: "candidate Exact r \<in> set ?ms"
    using assms by (force simp: first_loop_eq)
  then have ne: "?ms \<noteq> []" by auto
  have "search_table scorer breeds breed_name species_type = Inr \<lparr>matches = ?ms, count = length ?ms\<rparr>"
    by (rule search_table_first[OF ne])
  moreover have "\<forall>m\<in>set ?ms. match_type m \<noteq> Fuzzy"
    using first_loop_not_fuzzy by blast
  ultimately show ?thesis using mem first_loop_eq[of ?q ?pre breeds] by (intro exI[of _ ?ms]) simp
qed

theorem C1_exact_excludes_fuzzy_witness:
  "(''poodle'', example_record ''Poodle'' ''101'' ''Dog~Poodle'') \<in> set poodle_table \<and>
   eligible (capitalize ''dog'' @ ''~'') (example_record ''Poodle'' ''101'' ''Dog~Poodle'') \<and>
   exact_match (strip (lower ''poodle'')) (''poodle'', example_record ''Poodle'' ''101'' ''Dog~Poodle'') \<and>
   (\<exists>ms. search_table example_scorer poodle_table ''poodle'' ''dog''
            = Inr \<lparr>matches = ms, count = length ms\<rparr> \<and>
          candidate Exact (''poodle'', example_record ''Poodle'' ''101'' ''Dog~Poodle'') \<in> set ms \<and>
          Fuzzy \<notin> match_type ` set ms)"
proof -
  let ?r = "(''poodle'', example_record ''Poodle'' ''101'' ''Dog~Poodle'')"
  have h1: "?r \<in> set poodle_table" by (simp add: poodle_table_def)
  have h2: "eligible (capitalize ''dog'' @ ''~'') (snd ?r)" using poodle_eligible by simp
  have h3: "exact_match (strip (lower ''poodle'')) ?r" by code_simp
  from C1_exact_excludes_fuzzy[OF h1 h2 h3, of example_scorer]
  obtain ms where ms: "search_table example_scorer poodle_table ''poodle'' ''dog''
            = Inr \<lparr>matches = ms, count = length ms\<rparr>"
    "candidate Exact ?r \<in> set ms" "\<forall>m\<in>set ms. match_type m \<noteq> Fuzzy"
    by blast
  from ms(3) have "Fuzzy \<notin> match_type ` set ms" by auto
  with ms(1,2) have "\<exists>ms. search_table example_scorer poodle_table ''poodle'' ''dog''
            = Inr \<lparr>matches = ms, count = length ms\<rparr> \<and>
          candidate Exact ?r \<in> set ms \<and> Fuzzy \<notin> match_type ` set ms"
    by blast
  with h1 h2 h3 show ?thesis by simp
qed

text \<open>
  C1 as stated excludes partial candidates as well. The first loop tests each record on
  its own (\<^verbatim>\<open>if\<close> exact, \<^verbatim>\<open>elif\<close> partial) and appends to one list: for the query
  \<^verbatim>\<open>poodle\<close> the entry \<^verbatim>\<open>Poodle\<close> matches exactly and \<^verbatim>\<open>Toy Poodle\<close> is returned beside
  it as a partial candidate.
\<close>

theorem C1_counterexample:
  "search_table example_scorer poodle_table ''poodle'' ''dog'' =
     Inr \<lparr>matches =
           [\<lparr>key = ''poodle'', label = ''Poodle'', breed_id = ''101'', match_type = Exact, score = None\<rparr>,
            \<lparr>key = ''toy-poodle'', label = ''Toy Poodle'', breed_id = ''102'', match_type = Partial, score = None\<rparr>],
          count = 2\<rparr>"
  by code_simp

subsection \<open>C2: blank queries\<close>

text \<open>
  C2, as amended. A query that is the empty string is rejected with the error
  \<^verbatim>\<open>Breed name is required\<close> (\<open>InvalidQuery\<close>), for every species that lower-cases to
  \<^verbatim>\<open>dog\<close> or \<^verbatim>\<open>cat\<close>, whatever the file and the cache hold, and the process state
  is left as it was. No non-empty query is rejected with that error, blank or not.
\<close>

theorem C2_empty_query:
  assumes "lower species_type = ''dog'' \<or> lower species_type = ''cat''"
  shows "resolve_breed_code scorer disk w species_type [] = (Inl BreedRequired, w) \<and>
         spec_kind BreedRequired = Some InvalidQuery \<and>
         (\<forall>breed_name. breed_name \<noteq> [] \<longrightarrow>
            fst (resolve_breed_code scorer disk w species_type breed_name) \<noteq> Inl BreedRequired)"
proof -
  from assms have "species_type \<noteq> []" by (auto simp: lower_def)
  with assms have "resolve_breed_code scorer disk w species_type [] = (Inl BreedRequired, w)"
    by (auto simp: resolve_breed_code_def Let_def)
  with resolve_not_breed_required[OF assms] show ?thesis by simp
qed

theorem C2_empty_query_witness:
  "lower ''CAT'' = ''cat'' \<and>
   resolve_breed_code example_scorer (Some poodle_table) cold_world ''CAT'' [] = (Inl BreedRequired, cold_world) \<and>
   fst (resolve_breed_code example_scorer (Some poodle_table) cold_world ''CAT'' ''  '') \<noteq> Inl BreedRequired"
proof -
  have sp: "lower ''CAT'' = ''cat''" by code_simp
  then have h1: "lower ''CAT'' = ''dog'' \<or> lower ''CAT'' = ''cat''" by simp
  from C2_empty_query[OF h1, of example_scorer "Some poodle_table" cold_world] sp
  show ?thesis by simp
qed

text \<open>
  C2 as stated also covers queries that are blank after trimming. The guard is
  \<^verbatim>\<open>if not breed_name\<close>, which only the empty string fails: a query of two spaces
  passes it and resolves to the only dog of the table.
\<close>

theorem C2_counterexample:
  "fst (resolve_breed_code example_scorer (Some labrador_table) cold_world ''dog'' ''  '')
     = Inr (Resolved ''301'' ''Labrador Retriever'' ''labrador-retriever'')"
  by code_simp

subsection \<open>C3: the fuzzy phase\<close>

text \<open>
  C3. The fuzzy phase contract, for a valid species, a non-empty query and a table that
  loads: a fuzzy candidate is returned only when the first loop (exact and partial)
  produced nothing; in that case at most 5 candidates are returned, each of them fuzzy
  with the score of its label against the raw query, which is above 70, in descending
  order of score; and when in that case every eligible label scores at most 70,
  \<^verbatim>\<open>resolve_breed_code\<close> fails with the not-found error.
\<close>

theorem C3_fuzzy_phase_contract:
  assumes "lower species_type = ''dog'' \<or> lower species_type = ''cat''"
    and "breed_name \<noteq> []"
    and "load_breeds_cache disk w = (Inr breeds, w1)"
  shows "\<exists>ms. search_table scorer breeds breed_name (lower species_type)
                 = Inr \<lparr>matches = ms, count = length ms\<rparr> \<and>
           ((\<exists>m\<in>set ms. match_type m = Fuzzy) \<longrightarrow>
              first_loop (strip (lower breed_name)) (capitalize (lower species_type) @ ''~'') breeds = []) \<and>
           (first_loop (strip (lower breed_name)) (capitalize (lower species_type) @ ''~'') breeds = [] \<longrightarrow>
              length ms \<le> 5 \<and>
              (\<forall>m\<in>set ms. match_type m = Fuzzy \<and> score m = Some (scorer breed_name (label m)) \<and>
                 70 < scorer breed_name (label m)) \<and>
              sorted_wrt (\<lambda>a b. a \<ge> b) (map (\<lambda>m. scorer breed_name (label m)) ms)) \<and>
           (first_loop (strip (lower breed_name)) (capitalize (lower species_type) @ ''~'') breeds = [] \<and>
            (\<forall>r\<in>set breeds. eligible (capitalize (lower species_type) @ ''~'') (snd r) \<longrightarrow>
                 scorer breed_name (get_label (snd r)) \<le> 70) \<longrightarrow>
              resolve_breed_code scorer disk w species_type breed_name
                = (Inl (NoBreedsFound breed_name (lower species_type)), w1))"
proof (cases "first_loop (strip (lower breed_name)) (capitalize (lower species_type) @ ''~'') breeds = []")
  case False
  let ?fl = "first_loop (strip (lower breed_name)) (capitalize (lower species_type) @ ''~'') breeds"
  have "search_table scorer breeds breed_name (lower species_type) = Inr \<lparr>matches = ?fl, count = length ?fl\<rparr>"
    by (rule search_table_first[OF False])
  moreover have "\<not> (\<exists>m\<in>set ?fl. match_type m = Fuzzy)"
    using first_loop_not_fuzzy by blast
  ultimately show ?thesis using False by blast
next
  case True
  let ?pre = "capitalize (lower species_type) @ ''~''"
  from search_table_fuzzy[OF True, of scorer] obtain ms where
    st: "search_table scorer breeds breed_name (lower species_type) = Inr \<lparr>matches = ms, count = length ms\<rparr>"
    and len: "length ms \<le> 5"
    and sc: "\<exists>ss. map score ms = map Some ss \<and> sorted_wrt (\<lambda>a b. a \<ge> b) ss \<and> (\<forall>s\<in>set ss. s > 70)"
    and each: "\<forall>m\<in>set ms. match_type m = Fuzzy \<and> score m = Some (scorer breed_name (label m)) \<and>
              scorer breed_name (label m) > 70 \<and>
              (\<exists>pre bd post. breeds = pre @ (key m, bd) # post \<and>
                 eligible ?pre bd \<and> get_label bd = label m \<and>
                 healthy_paws_id bd = breed_id m \<and>
                 (\<forall>r\<in>set post. eligible ?pre (snd r) \<longrightarrow> get_label (snd r) \<noteq> label m))"
    by blast
  from sc obtain ss where ss: "map score ms = map Some ss" "sorted_wrt (\<lambda>a b. a \<ge> b) ss" by blast
  from each have "map score ms = map Some (map (\<lambda>m. scorer breed_name (label m)) ms)"
    by simp
  with ss(1) have "ss = map (\<lambda>m. scorer breed_name (label m)) ms"
    by (metis inj_Some inj_map_eq_map)
  with ss(2) have srt: "sorted_wrt (\<lambda>a b. a \<ge> b) (map (\<lambda>m. scorer breed_name (label m)) ms)"
    by simp
  have each': "\<forall>m\<in>set ms. match_type m = Fuzzy \<and> score m = Some (scorer breed_name (label m)) \<and>
                 70 < scorer breed_name (label m)"
    using each by blast
  have nf: "resolve_breed_code scorer disk w species_type breed_name
                = (Inl (NoBreedsFound breed_name (lower species_type)), w1)"
    if low: "\<forall>r\<in>set breeds. eligible ?pre (snd r) \<longrightarrow> scorer breed_name (get_label (snd r)) \<le> 70"
  proof -
    have "ms = []"
    proof (rule ccontr)
      assume "ms \<noteq> []"
      then obtain m where m: "m \<in> set ms" by (cases ms) auto
      with each obtain pre bd post where b: "breeds = pre @ (key m, bd) # post" "eligible ?pre bd"
        "get_label bd = label m" and hi: "scorer breed_name (label m) > 70"
        by blast
      from b(1) have "(key m, bd) \<in> set breeds" by simp
      with low b(2) have "scorer breed_name (get_label bd) \<le> 70" by force
      with b(3) hi show False by simp
    qed
    with resolve_valid[OF assms st] show ?thesis by simp
  qed
  from st len each' srt nf True show ?thesis by blast
qed

theorem C3_fuzzy_phase_contract_witness:
  "lower ''dog'' = ''dog'' \<and> ''Poodel'' \<noteq> [] \<and> ''Zebra'' \<noteq> [] \<and>
   load_breeds_cache (Some shared_label_table) cold_world
     = (Inr shared_label_table, \<lparr>BREEDS_CACHE = Some shared_label_table, file_opens = 1\<rparr>) \<and>
   first_loop (strip (lower ''Poodel'')) (capitalize (lower ''dog'') @ ''~'') shared_label_table = [] \<and>
   search_table example_scorer shared_label_table ''Poodel'' (lower ''dog'') =
     Inr \<lparr>matches =
           [\<lparr>key = ''miniature-poodle'', label = ''Poodle'', breed_id = ''202'',
             match_type = Fuzzy, score = Some (250 / 3)\<rparr>],
          count = 1\<rparr> \<and>
   70 < example_scorer ''Poodel'' ''Poodle'' \<and>
   first_loop (strip (lower ''Zebra'')) (capitalize (lower ''dog'') @ ''~'') shared_label_table = [] \<and>
   list_all (\<lambda>r. example_scorer ''Zebra'' (get_label (snd r)) \<le> 70) shared_label_table \<and>
   resolve_breed_code example_scorer (Some shared_label_table) cold_world ''dog'' ''Zebra''
     = (Inl (NoBreedsFound ''Zebra'' (lower ''dog'')),
        \<lparr>BREEDS_CACHE = Some shared_label_table, file_opens = 1\<rparr>)"
proof -
  have h1: "lower ''dog'' = ''dog'' \<or> lower ''dog'' = ''cat''" using lower_dog by simp
  have h2: "''Poodel'' \<noteq> []" and h2': "''Zebra'' \<noteq> []" by simp_all
  note h3 = cold_load[of shared_label_table]
  have low: "list_all (\<lambda>r. example_scorer ''Zebra'' (get_label (snd r)) \<le> 70) shared_label_table"
    by (simp add: shared_label_table_def example_scorer_def)
  then have low': "\<forall>r\<in>set shared_label_table. eligible (capitalize (lower ''dog'') @ ''~'') (snd r) \<longrightarrow>
                 example_scorer ''Zebra'' (get_label (snd r)) \<le> 70"
    by (simp add: list_all_iff)
  from C3_fuzzy_phase_contract[OF h1 h2 h3, of example_scorer] poodel_first_loop poodel_search
  have a: "70 < example_scorer ''Poodel'' ''Poodle''"
    by simp
  from C3_fuzzy_phase_contract[OF h1 h2' h3, of example_scorer] zebra_first_loop low'
  have b: "resolve_breed_code example_scorer (Some shared_label_table) cold_world ''dog'' ''Zebra''
     = (Inl (NoBreedsFound ''Zebra'' (lower ''dog'')),
        \<lparr>BREEDS_CACHE = Some shared_label_table, file_opens = 1\<rparr>)"
    by blast
  from lower_dog h2 h2' h3 poodel_first_loop poodel_search a zebra_first_loop low b show ?thesis
    by (intro conjI)
qed

subsection \<open>C4: records that share a label\<close>

text \<open>
  C4, as amended. In the fuzzy phase the labels of the eligible records are scored
  without repetitions, each at the place of its first occurrence in the table; the labels
  of the candidates are, in order, the labels among the first 5 results that score above
  70, so no label has two candidates. The candidate of a label is fuzzy, has the score of
  the label against the raw query, and carries the key and the \<^verbatim>\<open>HealthyPaws\<close>
  identifier of the last eligible record with that label in table order: the table splits
  at the candidate's record, and no eligible record after it has the label.
\<close>

theorem C4_last_wins:
  assumes "first_loop (strip (lower breed_name)) (capitalize species_type @ ''~'') breeds = []"
    and "search_table scorer breeds breed_name species_type = Inr sr"
  shows "map label (matches sr) =
           map fst (filter (\<lambda>(c, s, i). 70 < s)
             (process_extract scorer breed_name
                (first_occurrences (eligible_labels (capitalize species_type @ ''~'') breeds)) 5)) \<and>
         distinct (map label (matches sr)) \<and>
         (\<forall>m\<in>set (matches sr).
            match_type m = Fuzzy \<and> score m = Some (scorer breed_name (label m)) \<and>
            (\<exists>pre bd post. breeds = pre @ (key m, bd) # post \<and>
               eligible (capitalize species_type @ ''~'') bd \<and> get_label bd = label m \<and>
               get_providers bd ''HealthyPaws'' = Some (breed_id m) \<and>
               (\<forall>r\<in>set post. eligible (capitalize species_type @ ''~'') (snd r)
                    \<longrightarrow> get_label (snd r) \<noteq> label m)))"
proof -
  let ?pre = "capitalize species_type @ ''~''"
  let ?rs = "process_extract scorer breed_name (first_occurrences (eligible_labels ?pre breeds)) 5"
  note lab = search_table_fuzzy_labels[OF assms]
  have "distinct (map fst ?rs)"
    by (rule process_extract_choices[OF distinct_first_occurrences])
  then have "distinct (map fst (filter (\<lambda>(c, s, i). 70 < s) ?rs))"
    by (rule distinct_map_filter)
  with lab have dist: "distinct (map label (matches sr))" by simp
  have each: "\<forall>m\<in>set (matches sr).
            match_type m = Fuzzy \<and> score m = Some (scorer breed_name (label m)) \<and>
            (\<exists>pre bd post. breeds = pre @ (key m, bd) # post \<and>
               eligible ?pre bd \<and> get_label bd = label m \<and>
               get_providers bd ''HealthyPaws'' = Some (breed_id m) \<and>
               (\<forall>r\<in>set post. eligible ?pre (snd r) \<longrightarrow> get_label (snd r) \<noteq> label m))"
  proof
    fix m assume m: "m \<in> set (matches sr)"
    from search_table_fuzzy[OF assms(1), of scorer] assms(2) m
    have "match_type m = Fuzzy \<and> score m = Some (scorer breed_name (label m)) \<and>
         (\<exists>pre bd post. breeds = pre @ (key m, bd) # post \<and>
            eligible ?pre bd \<and> get_label bd = label m \<and>
            healthy_paws_id bd = breed_id m \<and>
            (\<forall>r\<in>set post. eligible ?pre (snd r) \<longrightarrow> get_label (snd r) \<noteq> label m))"
      by fastforce
    then show "match_type m = Fuzzy \<and> score m = Some (scorer breed_name (label m)) \<and>
            (\<exists>pre bd post. breeds = pre @ (key m, bd) # post \<and>
               eligible ?pre bd \<and> get_label bd = label m \<and>
               get_providers bd ''HealthyPaws'' = Some (breed_id m) \<and>
               (\<forall>r\<in>set post. eligible ?pre (snd r) \<longrightarrow> get_label (snd r) \<noteq> label m))"
      by (metis eligible_iff)
  qed
  from lab dist each show ?thesis by (intro conjI)
qed

theorem C4_last_wins_witness:
  "first_loop (strip (lower ''Poodel'')) (capitalize ''dog'' @ ''~'') shared_label_table = [] \<and>
   search_table example_scorer shared_label_table ''Poodel'' ''dog'' =
     Inr \<lparr>matches =
           [\<lparr>key = ''miniature-poodle'', label = ''Poodle'', breed_id = ''202'',
             match_type = Fuzzy, score = Some (250 / 3)\<rparr>],
          count = 1\<rparr> \<and>
   first_occurrences (eligible_labels (capitalize ''dog'' @ ''~'') shared_label_table) = [''Poodle''] \<and>
   map fst (filter (\<lambda>(c, s, i). 70 < s)
      (process_extract example_scorer ''Poodel''
         (first_occurrences (eligible_labels (capitalize ''dog'' @ ''~'') shared_label_table)) 5))
     = [''Poodle''] \<and>
   (\<exists>pre bd post. shared_label_table = pre @ (''miniature-poodle'', bd) # post \<and>
      eligible (capitalize ''dog'' @ ''~'') bd \<and> get_label bd = ''Poodle'' \<and>
      get_providers bd ''HealthyPaws'' = Some ''202'' \<and>
      list_all (\<lambda>r. \<not> (eligible (capitalize ''dog'' @ ''~'') (snd r) \<and> get_label (snd r) = ''Poodle'')) post)"
proof -
  let ?m = "\<lparr>key = ''miniature-poodle'', label = ''Poodle'', breed_id = ''202'',
             match_type = Fuzzy, score = Some (250 / 3)\<rparr>"
  note t = C4_last_wins[OF shared_label_first_loop shared_label_search]
  from t have a: "map fst (filter (\<lambda>(c, s, i). 70 < s)
      (process_extract example_scorer ''Poodel''
         (first_occurrences (eligible_labels (capitalize ''dog'' @ ''~'') shared_label_table)) 5))
     = [''Poodle'']"
    by simp
  from t have b: "\<exists>pre bd post. shared_label_table = pre @ (''miniature-poodle'', bd) # post \<and>
      eligible (capitalize ''dog'' @ ''~'') bd \<and> get_label bd = ''Poodle'' \<and>
      get_providers bd ''HealthyPaws'' = Some ''202'' \<and>
      list_all (\<lambda>r. \<not> (eligible (capitalize ''dog'' @ ''~'') (snd r) \<and> get_label (snd r) = ''Poodle'')) post"
    by (simp add: list_all_iff)
  from shared_label_first_loop shared_label_search shared_label_first_occurrences a b
  show ?thesis by (intro conjI)
qed

text \<open>
  C4 as stated has the first record win. The assignment
  \<^verbatim>\<open>breed_labels[label] = ...\<close> overwrites: of two eligible dogs labelled \<^verbatim>\<open>Poodle\<close>, the
  misspelt query \<^verbatim>\<open>Poodel\<close> gets the key and identifier of the second.
\<close>

theorem C4_counterexample:
  "search_table example_scorer shared_label_table ''Poodel'' ''dog'' =
     Inr \<lparr>matches =
           [\<lparr>key = ''miniature-poodle'', label = ''Poodle'', breed_id = ''202'',
             match_type = Fuzzy, score = Some (250 / 3)\<rparr>],
          count = 1\<rparr>"
  by code_simp

subsection \<open>C5: cardinality routing\<close>

text \<open>
  C5. Cardinality routing: for a valid species, a non-empty query and a table that loads,
  the search returns a match list with its length as count, and \<^verbatim>\<open>resolve_breed_code\<close>
  fails with the not-found error when the list is empty, returns the \<^verbatim>\<open>breed_id\<close>,
  \<^verbatim>\<open>label\<close> and \<^verbatim>\<open>key\<close> of the only candidate when there is one, and otherwise returns
  the multiple-match result whose count is the length of the list and whose options are
  the candidates in order.
\<close>

theorem C5_cardinality_routing:
  assumes "lower species_type = ''dog'' \<or> lower species_type = ''cat''"
    and "breed_name \<noteq> []"
    and "load_breeds_cache disk w = (Inr breeds, w1)"
  shows "\<exists>ms. search_table scorer breeds breed_name (lower species_type)
                 = Inr \<lparr>matches = ms, count = length ms\<rparr> \<and>
           (ms = [] \<longrightarrow>
              resolve_breed_code scorer disk w species_type breed_name
                = (Inl (NoBreedsFound breed_name (lower species_type)), w1)) \<and>
           (\<forall>m. ms = [m] \<longrightarrow>
              resolve_breed_code scorer disk w species_type breed_name
                = (Inr (Resolved (breed_id m) (label m) (key m)), w1)) \<and>
           (2 \<le> length ms \<longrightarrow>
              resolve_breed_code scorer disk w species_type breed_name
                = (Inr (Ambiguous (length ms) (map option_of ms)
                          (multiple_message (length ms) breed_name)), w1))"
proof -
  from search_table_total obtain ms where
    ms: "search_table scorer breeds breed_name (lower species_type) = Inr \<lparr>matches = ms, count = length ms\<rparr>"
    by blast
  note r = resolve_valid[OF assms ms]
  have "ms = [] \<longrightarrow> resolve_breed_code scorer disk w species_type breed_name
                = (Inl (NoBreedsFound breed_name (lower species_type)), w1)"
    using r by simp
  moreover have "\<forall>m. ms = [m] \<longrightarrow>
              resolve_breed_code scorer disk w species_type breed_name
                = (Inr (Resolved (breed_id m) (label m) (key m)), w1)"
    using r by simp
  moreover have "2 \<le> length ms \<longrightarrow>
              resolve_breed_code scorer disk w species_type breed_name
                = (Inr (Ambiguous (length ms) (map option_of ms)
                          (multiple_message (length ms) breed_name)), w1)"
  proof
    assume "2 \<le> length ms"
    then obtain m m' rest where "ms = m # m' # rest"
      by (cases ms; cases "tl ms") auto
    with r show "resolve_breed_code scorer disk w species_type breed_name
                = (Inr (Ambiguous (length ms) (map option_of ms)
                          (multiple_message (length ms) breed_name)), w1)"
      by simp
  qed
  ultimately show ?thesis using ms by blast
qed

theorem C5_cardinality_routing_witness:
  "lower ''Dog'' = ''dog'' \<and> lower ''dog'' = ''dog'' \<and>
   ''Poodle'' \<noteq> [] \<and> ''Toy Poodle'' \<noteq> [] \<and> ''Zebra'' \<noteq> [] \<and>
   load_breeds_cache (Some poodle_table) cold_world
     = (Inr poodle_table, \<lparr>BREEDS_CACHE = Some poodle_table, file_opens = 1\<rparr>) \<and>
   resolve_breed_code example_scorer (Some poodle_table) cold_world ''Dog'' ''Poodle''
     = (Inr (Ambiguous 2
          [\<lparr>opt_label = ''Poodle'', opt_key = ''poodle'', opt_match_type = Exact\<rparr>,
           \<lparr>opt_label = ''Toy Poodle'', opt_key = ''toy-poodle'', opt_match_type = Partial\<rparr>]
          (multiple_message 2 ''Poodle'')),
        \<lparr>BREEDS_CACHE = Some poodle_table, file_opens = 1\<rparr>) \<and>
   resolve_breed_code example_scorer (Some poodle_table) cold_world ''dog'' ''Toy Poodle''
     = (Inr (Resolved ''102'' ''Toy Poodle'' ''toy-poodle''),
        \<lparr>BREEDS_CACHE = Some poodle_table, file_opens = 1\<rparr>) \<and>
   resolve_breed_code example_scorer (Some poodle_table) cold_world ''dog'' ''Zebra''
     = (Inl (NoBreedsFound ''Zebra'' ''dog''),
        \<lparr>BREEDS_CACHE = Some poodle_table, file_opens = 1\<rparr>)"
proof -
  have sp: "lower ''Dog'' = ''dog''" by code_simp
  then have h1: "lower ''Dog'' = ''dog'' \<or> lower ''Dog'' = ''cat''" by simp
  have h1': "lower ''dog'' = ''dog'' \<or> lower ''dog'' = ''cat''" using lower_dog by simp
  have h2: "''Poodle'' \<noteq> []" and h2': "''Toy Poodle'' \<noteq> []" and h2'': "''Zebra'' \<noteq> []" by simp_all
  note h3 = cold_load[of poodle_table]
  from C5_cardinality_routing[OF h1 h2 h3, of example_scorer] sp poodle_search
  have a: "resolve_breed_code example_scorer (Some poodle_table) cold_world ''Dog'' ''Poodle''
     = (Inr (Ambiguous 2
          [\<lparr>opt_label = ''Poodle'', opt_key = ''poodle'', opt_match_type = Exact\<rparr>,
           \<lparr>opt_label = ''Toy Poodle'', opt_key = ''toy-poodle'', opt_match_type = Partial\<rparr>]
          (multiple_message 2 ''Poodle'')),
        \<lparr>BREEDS_CACHE = Some poodle_table, file_opens = 1\<rparr>)"
    by (simp add: option_of_def numeral_2_eq_2)
  from C5_cardinality_routing[OF h1' h2' h3, of example_scorer] toy_poodle_search
  have b: "resolve_breed_code example_scorer (Some poodle_table) cold_world ''dog'' ''Toy Poodle''
     = (Inr (Resolved ''102'' ''Toy Poodle'' ''toy-poodle''),
        \<lparr>BREEDS_CACHE = Some poodle_table, file_opens = 1\<rparr>)"
    by simp
  from C5_cardinality_routing[OF h1' h2'' h3, of example_scorer] zebra_search lower_dog
  have c: "resolve_breed_code example_scorer (Some poodle_table) cold_world ''dog'' ''Zebra''
     = (Inl (NoBreedsFound ''Zebra'' ''dog''),
        \<lparr>BREEDS_CACHE = Some poodle_table, file_opens = 1\<rparr>)"
    by simp
  from sp lower_dog h2 h2' h2'' h3 a b c show ?thesis by simp
qed

subsection \<open>C6: eligibility and species isolation\<close>

text \<open>
  C6. Eligibility and species isolation, for a valid species, a non-empty query and a table
  that loads: the single match and every option of a multiple match come from a table
  entry with that key and label whose \<^verbatim>\<open>HealthyPaws\<close> identifier is present and non-empty
  (and is the returned \<^verbatim>\<open>breed_id\<close>) and whose \<^verbatim>\<open>PrudentPet\<close> identifier starts with the
  capitalised species and \<^verbatim>\<open>~\<close>. With the keys of the table distinct, as in a dict, an entry
  whose \<^verbatim>\<open>PrudentPet\<close> identifier lacks that prefix never has its key in the result; the
  prefix is \<^verbatim>\<open>Dog~\<close> or \<^verbatim>\<open>Cat~\<close>, and an identifier tagged for the other species lacks it.
\<close>

theorem C6_eligibility_and_species_isolation:
  assumes "lower species_type = ''dog'' \<or> lower species_type = ''cat''"
    and "breed_name \<noteq> []"
    and "load_breeds_cache disk w = (Inr breeds, w1)"
  shows "(\<forall>b l k. fst (resolve_breed_code scorer disk w species_type breed_name) = Inr (Resolved b l k) \<longrightarrow>
            (\<exists>bd. (k, bd) \<in> set breeds \<and> get_label bd = l \<and>
                  get_providers bd ''HealthyPaws'' = Some b \<and> b \<noteq> [] \<and>
                  prefix (capitalize (lower species_type) @ ''~'') (get_prudent_pet (get_providers bd)))) \<and>
         (\<forall>n os msg. fst (resolve_breed_code scorer disk w species_type breed_name) = Inr (Ambiguous n os msg) \<longrightarrow>
            (\<forall>opt\<in>set os. \<exists>bd b. (opt_key opt, bd) \<in> set breeds \<and> get_label bd = opt_label opt \<and>
                  get_providers bd ''HealthyPaws'' = Some b \<and> b \<noteq> [] \<and>
                  prefix (capitalize (lower species_type) @ ''~'') (get_prudent_pet (get_providers bd)))) \<and>
         (distinct (map fst breeds) \<longrightarrow>
            (\<forall>r\<in>set breeds.
               \<not> prefix (capitalize (lower species_type) @ ''~'') (get_prudent_pet (get_providers (snd r))) \<longrightarrow>
               fst r \<notin> result_keys (fst (resolve_breed_code scorer disk w species_type breed_name)))) \<and>
         (lower species_type = ''dog'' \<longrightarrow>
            capitalize (lower species_type) @ ''~'' = ''Dog~'' \<and>
            (\<forall>x. prefix ''Cat~'' x \<longrightarrow> \<not> prefix (capitalize (lower species_type) @ ''~'') x)) \<and>
         (lower species_type = ''cat'' \<longrightarrow>
            capitalize (lower species_type) @ ''~'' = ''Cat~'' \<and>
            (\<forall>x. prefix ''Dog~'' x \<longrightarrow> \<not> prefix (capitalize (lower species_type) @ ''~'') x))"
proof -
  let ?pre = "capitalize (lower species_type) @ ''~''"
  let ?R = "fst (resolve_breed_code scorer disk w species_type breed_name)"
  note rb = resolve_backed[OF assms, of scorer]
  have c1: "\<forall>b l k. ?R = Inr (Resolved b l k) \<longrightarrow>
            (\<exists>bd. (k, bd) \<in> set breeds \<and> get_label bd = l \<and>
                  get_providers bd ''HealthyPaws'' = Some b \<and> b \<noteq> [] \<and>
                  prefix ?pre (get_prudent_pet (get_providers bd)))"
    using rb by (metis eligible_iff)
  have c2: "\<forall>n os msg. ?R = Inr (Ambiguous n os msg) \<longrightarrow>
            (\<forall>opt\<in>set os. \<exists>bd b. (opt_key opt, bd) \<in> set breeds \<and> get_label bd = opt_label opt \<and>
                  get_providers bd ''HealthyPaws'' = Some b \<and> b \<noteq> [] \<and>
                  prefix ?pre (get_prudent_pet (get_providers bd)))"
  proof (intro allI impI ballI)
    fix n os msg opt assume "?R = Inr (Ambiguous n os msg)" "opt \<in> set os"
    with rb obtain bd where "(opt_key opt, bd) \<in> set breeds" "eligible ?pre bd" "get_label bd = opt_label opt"
      by blast
    then show "\<exists>bd b. (opt_key opt, bd) \<in> set breeds \<and> get_label bd = opt_label opt \<and>
                  get_providers bd ''HealthyPaws'' = Some b \<and> b \<noteq> [] \<and>
                  prefix ?pre (get_prudent_pet (get_providers bd))"
      using eligible_iff by blast
  qed
  have c3: "distinct (map fst breeds) \<longrightarrow>
            (\<forall>r\<in>set breeds. \<not> prefix ?pre (get_prudent_pet (get_providers (snd r))) \<longrightarrow> fst r \<notin> result_keys ?R)"
  proof (intro impI ballI notI)
    fix r assume d: "distinct (map fst breeds)" and r: "r \<in> set breeds"
      and np: "\<not> prefix ?pre (get_prudent_pet (get_providers (snd r)))"
      and k: "fst r \<in> result_keys ?R"
    from resolve_keys_backed[OF assms k] obtain bd where
      bd: "(fst r, bd) \<in> set breeds" "eligible ?pre bd" by blast
    from r have "(fst r, snd r) \<in> set breeds" by simp
    with d bd(1) have "bd = snd r" by (rule eq_key_imp_eq_value)
    with bd(2) np show False by (simp add: eligible_iff)
  qed
  note tg = tag_cases[OF assms(1)]
  have c4: "lower species_type = ''dog'' \<longrightarrow> ?pre = ''Dog~'' \<and> (\<forall>x. prefix ''Cat~'' x \<longrightarrow> \<not> prefix ?pre x)"
    using tg by (auto simp: prefix_def)
  have c5: "lower species_type = ''cat'' \<longrightarrow> ?pre = ''Cat~'' \<and> (\<forall>x. prefix ''Dog~'' x \<longrightarrow> \<not> prefix ?pre x)"
    using tg by (auto simp: prefix_def)
  from c1 c2 c3 c4 c5 show ?thesis by blast
qed

theorem C6_eligibility_and_species_isolation_witness:
  "lower ''dog'' = ''dog'' \<and> ''Poodle'' \<noteq> [] \<and>
   load_breeds_cache (Some poodle_table) cold_world
     = (Inr poodle_table, \<lparr>BREEDS_CACHE = Some poodle_table, file_opens = 1\<rparr>) \<and>
   distinct (map fst poodle_table) \<and>
   (''poodle-cat'', example_record ''Poodle'' ''901'' ''Cat~Poodle'') \<in> set poodle_table \<and>
   ''poodle-cat'' \<notin> result_keys (fst (resolve_breed_code example_scorer (Some poodle_table) cold_world ''dog'' ''Poodle''))"
proof -
  let ?r = "(''poodle-cat'', example_record ''Poodle'' ''901'' ''Cat~Poodle'')"
  have h1: "lower ''dog'' = ''dog'' \<or> lower ''dog'' = ''cat''" using lower_dog by simp
  have h2: "''Poodle'' \<noteq> []" by simp
  note h3 = cold_load[of poodle_table]
  have d: "distinct (map fst poodle_table)" by (simp add: poodle_table_def)
  have r: "?r \<in> set poodle_table" by (simp add: poodle_table_def)
  have np: "\<not> prefix (capitalize (lower ''dog'') @ ''~'') (get_prudent_pet (get_providers (snd ?r)))"
    using poodle_cat_not_dog by simp
  from C6_eligibility_and_species_isolation[OF h1 h2 h3, of example_scorer] d
  have "\<forall>r\<in>set poodle_table.
          \<not> prefix (capitalize (lower ''dog'') @ ''~'') (get_prudent_pet (get_providers (snd r))) \<longrightarrow>
          fst r \<notin> result_keys (fst (resolve_breed_code example_scorer (Some poodle_table) cold_world ''dog'' ''Poodle''))"
    by blast
  with r np have "fst ?r \<notin> result_keys (fst (resolve_breed_code example_scorer (Some poodle_table) cold_world ''dog'' ''Poodle''))"
    by blast
  with lower_dog h2 h3 d r show ?thesis by simp
qed

subsection \<open>C7: query normalisation\<close>

text \<open>
  C7, as amended. The query is trimmed and lower-cased for the first loop (exact and
  partial tests) only. For a valid species and a table that loads, two non-empty queries
  with the same trimmed lower-cased form for which the first loop finds something get the
  same search result, and \<^verbatim>\<open>resolve_breed_code\<close> returns for both the same single match,
  or for both a multiple match with the same count and options (the message quotes each
  raw query).
\<close>

theorem C7_normalised_first_pass:
  assumes "lower species_type = ''dog'' \<or> lower species_type = ''cat''"
    and "q1 \<noteq> []" and "q2 \<noteq> []"
    and "strip (lower q1) = strip (lower q2)"
    and "load_breeds_cache disk w = (Inr breeds, w1)"
    and "first_loop (strip (lower q1)) (capitalize (lower species_type) @ ''~'') breeds \<noteq> []"
  shows "search_table scorer breeds q1 (lower species_type)
           = search_table scorer breeds q2 (lower species_type) \<and>
         ((\<exists>b l k. resolve_breed_code scorer disk w species_type q1 = (Inr (Resolved b l k), w1) \<and>
                   resolve_breed_code scorer disk w species_type q2 = (Inr (Resolved b l k), w1)) \<or>
          (\<exists>n os. resolve_breed_code scorer disk w species_type q1
                     = (Inr (Ambiguous n os (multiple_message n q1)), w1) \<and>
                   resolve_breed_code scorer disk w species_type q2
                     = (Inr (Ambiguous n os (multiple_message n q2)), w1)))"
proof -
  let ?fl = "first_loop (strip (lower q1)) (capitalize (lower species_type) @ ''~'') breeds"
  have ne2: "first_loop (strip (lower q2)) (capitalize (lower species_type) @ ''~'') breeds \<noteq> []"
    using assms(4,6) by simp
  have s1: "search_table scorer breeds q1 (lower species_type) = Inr \<lparr>matches = ?fl, count = length ?fl\<rparr>"
    by (rule search_table_first[OF assms(6)])
  have s2: "search_table scorer breeds q2 (lower species_type) = Inr \<lparr>matches = ?fl, count = length ?fl\<rparr>"
    using search_table_first[OF ne2, of scorer] assms(4) by simp
  note r1 = resolve_valid[OF assms(1,2,5) s1]
  note r2 = resolve_valid[OF assms(1,3,5) s2]
  from assms(6) obtain m rest where ms: "?fl = m # rest" by (cases ?fl) auto
  show ?thesis
  proof (cases rest)
    case Nil
    with ms r1 r2 s1 s2 show ?thesis by simp
  next
    case (Cons m' rest')
    with ms r1 r2 s1 s2 show ?thesis by simp
  qed
qed

theorem C7_normalised_first_pass_witness:
  "lower ''dog'' = ''dog'' \<and> ''Labrador Retriever'' \<noteq> [] \<and> ''  labrador retriever '' \<noteq> [] \<and>
   strip (lower ''Labrador Retriever'') = strip (lower ''  labrador retriever '') \<and>
   load_breeds_cache (Some labrador_table) cold_world
     = (Inr labrador_table, \<lparr>BREEDS_CACHE = Some labrador_table, file_opens = 1\<rparr>) \<and>
   first_loop (strip (lower ''Labrador Retriever'')) (capitalize (lower ''dog'') @ ''~'') labrador_table \<noteq> [] \<and>
   fst (resolve_breed_code example_scorer (Some labrador_table) cold_world ''dog'' ''Labrador Retriever'')
     = Inr (Resolved ''301'' ''Labrador Retriever'' ''labrador-retriever'') \<and>
   fst (resolve_breed_code example_scorer (Some labrador_table) cold_world ''dog'' ''  labrador retriever '')
     = Inr (Resolved ''301'' ''Labrador Retriever'' ''labrador-retriever'')"
proof -
  have h1: "lower ''dog'' = ''dog'' \<or> lower ''dog'' = ''cat''" using lower_dog by simp
  have h2: "''Labrador Retriever'' \<noteq> []" and h3: "''  labrador retriever '' \<noteq> []" by simp_all
  note h5 = cold_load[of labrador_table]
  from C7_normalised_first_pass[OF h1 h2 h3 labrador_normalised h5 labrador_first_loop, of example_scorer]
    labrador_resolved
  have "fst (resolve_breed_code example_scorer (Some labrador_table) cold_world ''dog'' ''  labrador retriever '')
     = Inr (Resolved ''301'' ''Labrador Retriever'' ''labrador-retriever'')"
    by auto
  with lower_dog h2 h3 labrador_normalised h5 labrador_first_loop labrador_resolved
  show ?thesis by simp
qed

text \<open>
  C7 as stated gives two queries that differ only in surrounding whitespace the same
  result. The emptiness guard reads the raw query: the empty string and a single space
  normalise to the same string, yet the first is rejected and the second resolves.
\<close>

theorem C7_counterexample:
  "strip (lower []) = strip (lower '' '') \<and>
   fst (resolve_breed_code example_scorer (Some labrador_table) cold_world ''dog'' []) = Inl BreedRequired \<and>
   fst (resolve_breed_code example_scorer (Some labrador_table) cold_world ''dog'' '' '')
     = Inr (Resolved ''301'' ''Labrador Retriever'' ''labrador-retriever'')"
  by code_simp

subsection \<open>C8: invalid species\<close>

text \<open>
  C8. A species that is empty, or that does not lower-case to \<^verbatim>\<open>dog\<close> or \<^verbatim>\<open>cat\<close>, makes
  \<^verbatim>\<open>resolve_breed_code\<close> fail with an error of kind \<open>InvalidSpecies\<close>, for every query,
  file and cache; the error is not the not-found error and carries a different detail.
\<close>

theorem C8_invalid_species:
  assumes "species_type = [] \<or> (lower species_type \<noteq> ''dog'' \<and> lower species_type \<noteq> ''cat'')"
  shows "\<exists>e. resolve_breed_code scorer disk w species_type breed_name = (Inl e, w) \<and>
           spec_kind e = Some InvalidSpecies \<and>
           spec_kind e \<noteq> Some NotFound \<and>
           detail e \<noteq> detail (NoBreedsFound breed_name (lower species_type))"
proof (cases "species_type = []")
  case True
  then have "resolve_breed_code scorer disk w species_type breed_name = (Inl SpeciesRequired, w)"
    by (simp add: resolve_breed_code_def)
  then show ?thesis by (intro exI[of _ SpeciesRequired]) simp
next
  case False
  with assms have "resolve_breed_code scorer disk w species_type breed_name = (Inl SpeciesNotDogOrCat, w)"
    by (simp add: resolve_breed_code_def Let_def)
  then show ?thesis by (intro exI[of _ SpeciesNotDogOrCat]) simp
qed

theorem C8_invalid_species_witness:
  "lower ''bird'' \<noteq> ''dog'' \<and> lower ''bird'' \<noteq> ''cat'' \<and>
   resolve_breed_code example_scorer (Some poodle_table) cold_world ''bird'' ''Poodle''
     = (Inl SpeciesNotDogOrCat, cold_world) \<and>
   spec_kind SpeciesNotDogOrCat = Some InvalidSpecies"
proof -
  have h: "lower ''bird'' \<noteq> ''dog'' \<and> lower ''bird'' \<noteq> ''cat''" by code_simp
  then have h1: "''bird'' = [] \<or> (lower ''bird'' \<noteq> ''dog'' \<and> lower ''bird'' \<noteq> ''cat'')" by simp
  from C8_invalid_species[OF h1, of example_scorer "Some poodle_table" cold_world "''Poodle''"]
  obtain e where e: "resolve_breed_code example_scorer (Some poodle_table) cold_world ''bird'' ''Poodle'' = (Inl e, cold_world)"
    "spec_kind e = Some InvalidSpecies"
    by blast
  have "''bird'' \<noteq> []" by simp
  with h have "resolve_breed_code example_scorer (Some poodle_table) cold_world ''bird'' ''Poodle''
     = (Inl SpeciesNotDogOrCat, cold_world)"
    by (simp add: resolve_breed_code_def Let_def)
  with e h show ?thesis by simp
qed

subsection \<open>C9: the loader\<close>

text \<open>
  C9. Loader idempotence: once a call of \<^verbatim>\<open>load_breeds_cache\<close> has returned a table, every
  later call returns that table and leaves the process state (cache and number of file
  opens) unchanged, whatever the file holds by then. A call on an empty cache opens the
  file once; a call on a filled cache does not open it.
\<close>

theorem C9_loader_idempotent:
  assumes "load_breeds_cache disk w = (Inr t, w1)"
  shows "load_breeds_cache disk' w1 = (Inr t, w1) \<and>
         BREEDS_CACHE w1 = Some t \<and>
         (BREEDS_CACHE w = None \<longrightarrow>
            disk = Some t \<and> file_opens w1 = file_opens w + 1) \<and>
         (BREEDS_CACHE w \<noteq> None \<longrightarrow> w1 = w)"
  using assms by (auto simp: load_breeds_cache_def split: option.splits)

theorem C9_loader_idempotent_witness:
  "load_breeds_cache (Some poodle_table) cold_world
     = (Inr poodle_table, \<lparr>BREEDS_CACHE = Some poodle_table, file_opens = 1\<rparr>) \<and>
   load_breeds_cache (Some labrador_table) \<lparr>BREEDS_CACHE = Some poodle_table, file_opens = 1\<rparr>
     = (Inr poodle_table, \<lparr>BREEDS_CACHE = Some poodle_table, file_opens = 1\<rparr>) \<and>
   load_breeds_cache None \<lparr>BREEDS_CACHE = Some poodle_table, file_opens = 1\<rparr>
     = (Inr poodle_table, \<lparr>BREEDS_CACHE = Some poodle_table, file_opens = 1\<rparr>)"
proof -
  note h = cold_load[of poodle_table]
  from C9_loader_idempotent[OF h, of "Some labrador_table"] C9_loader_idempotent[OF h, of None] h
  show ?thesis by simp
qed

subsection \<open>C10: queries of whitespace only\<close>

text \<open>
  C10, as amended. For a valid species and a non-empty query of whitespace only,
  \<^verbatim>\<open>resolve_breed_code\<close> does not fail with \<^verbatim>\<open>Breed name is required\<close>: the normalised
  query is empty, and the search returns every eligible record of the table, in table
  order, as a partial candidate, or as an exact candidate when its label or its key is
  empty. When there is at least one eligible record the call returns a single match or a
  multiple match.
\<close>

theorem C10_blank_query:
  assumes "lower species_type = ''dog'' \<or> lower species_type = ''cat''"
    and "breed_name \<noteq> []"
    and "\<forall>c\<in>set breed_name. isspace c"
    and "load_breeds_cache disk w = (Inr breeds, w1)"
  shows "\<exists>ms. ms = map (\<lambda>r. candidate (if get_label (snd r) = [] \<or> fst r = [] then Exact else Partial) r)
                    (filter (\<lambda>r. eligible (capitalize (lower species_type) @ ''~'') (snd r)) breeds) \<and>
           search_table scorer breeds breed_name (lower species_type)
             = Inr \<lparr>matches = ms, count = length ms\<rparr> \<and>
           fst (resolve_breed_code scorer disk w species_type breed_name) \<noteq> Inl BreedRequired \<and>
           (ms \<noteq> [] \<longrightarrow>
              (\<exists>b l k. fst (resolve_breed_code scorer disk w species_type breed_name) = Inr (Resolved b l k)) \<or>
              (\<exists>n os msg. fst (resolve_breed_code scorer disk w species_type breed_name)
                             = Inr (Ambiguous n os msg)))"
proof -
  let ?pre = "capitalize (lower species_type) @ ''~''"
  let ?ms = "map (\<lambda>r. candidate (if get_label (snd r) = [] \<or> fst r = [] then Exact else Partial) r)
                    (filter (\<lambda>r. eligible ?pre (snd r)) breeds)"
  have q: "strip (lower breed_name) = []" by (rule strip_lower_blank[OF assms(3)])
  have fl: "first_loop (strip (lower breed_name)) ?pre breeds = ?ms"
    unfolding q first_loop_eq by (simp add: exact_match_Nil partial_match_Nil)
  have st: "search_table scorer breeds breed_name (lower species_type) = Inr \<lparr>matches = ?ms, count = length ?ms\<rparr>"
  proof (cases "?ms = []")
    case False
    with fl search_table_first[of breed_name "lower species_type" breeds scorer] show ?thesis by simp
  next
    case True
    with fl have e: "first_loop (strip (lower breed_name)) ?pre breeds = []" by simp
    from search_table_fuzzy[OF e, of scorer] obtain fs where
      fs: "search_table scorer breeds breed_name (lower species_type) = Inr \<lparr>matches = fs, count = length fs\<rparr>"
      by blast
    have "fs = []"
    proof (rule ccontr)
      assume "fs \<noteq> []"
      then obtain m where "m \<in> set (matches \<lparr>matches = fs, count = length fs\<rparr>)" by (cases fs) auto
      from search_table_backed[OF fs this] obtain bd where "(key m, bd) \<in> set breeds" "eligible ?pre bd"
        by blast
      then have "filter (\<lambda>r. eligible ?pre (snd r)) breeds \<noteq> []"
        by (force simp: filter_empty_conv)
      with True show False by simp
    qed
    with fs True show ?thesis by simp
  qed
  define ms where "ms = ?ms"
  have st': "search_table scorer breeds breed_name (lower species_type) = Inr \<lparr>matches = ms, count = length ms\<rparr>"
    using st by (simp add: ms_def)
  note r = resolve_valid[OF assms(1,2,4) st']
  have nb: "fst (resolve_breed_code scorer disk w species_type breed_name) \<noteq> Inl BreedRequired"
  proof (cases ms)
    case Nil
    with r show ?thesis by simp
  next
    case (Cons m rest)
    with r show ?thesis by (cases rest) simp_all
  qed
  have ok: "ms \<noteq> [] \<longrightarrow>
              (\<exists>b l k. fst (resolve_breed_code scorer disk w species_type breed_name) = Inr (Resolved b l k)) \<or>
              (\<exists>n os msg. fst (resolve_breed_code scorer disk w species_type breed_name)
                             = Inr (Ambiguous n os msg))"
  proof (cases ms)
    case Nil
    then show ?thesis by simp
  next
    case (Cons m rest)
    with r show ?thesis by (cases rest) simp_all
  qed
  have "ms = ?ms \<and>
           search_table scorer breeds breed_name (lower species_type)
             = Inr \<lparr>matches = ms, count = length ms\<rparr> \<and>
           fst (resolve_breed_code scorer disk w species_type breed_name) \<noteq> Inl BreedRequired \<and>
           (ms \<noteq> [] \<longrightarrow>
              (\<exists>b l k. fst (resolve_breed_code scorer disk w species_type breed_name) = Inr (Resolved b l k)) \<or>
              (\<exists>n os msg. fst (resolve_breed_code scorer disk w species_type breed_name)
                             = Inr (Ambiguous n os msg)))"
    by (intro conjI ms_def st' nb ok)
  then show ?thesis by (rule exI[of _ ms])
qed

theorem C10_blank_query_witness:
  "lower ''dog'' = ''dog'' \<and> ''   '' \<noteq> [] \<and> list_all isspace ''   '' \<and>
   load_breeds_cache (Some labrador_table) cold_world
     = (Inr labrador_table, \<lparr>BREEDS_CACHE = Some labrador_table, file_opens = 1\<rparr>) \<and>
   (\<exists>ms. search_table example_scorer labrador_table ''   '' (lower ''dog'')
            = Inr \<lparr>matches = ms, count = length ms\<rparr> \<and> ms \<noteq> []) \<and>
   fst (resolve_breed_code example_scorer (Some labrador_table) cold_world ''dog'' ''   '')
     = Inr (Resolved ''301'' ''Labrador Retriever'' ''labrador-retriever'')"
proof -
  have h1: "lower ''dog'' = ''dog'' \<or> lower ''dog'' = ''cat''" using lower_dog by simp
  have h2: "''   '' \<noteq> []" by simp
  have sp: "list_all isspace ''   ''" by code_simp
  then have h3: "\<forall>c\<in>set ''   ''. isspace c" by (simp add: list_all_iff)
  note h4 = cold_load[of labrador_table]
  have el: "filter (\<lambda>r. eligible (capitalize (lower ''dog'') @ ''~'') (snd r)) labrador_table \<noteq> []"
    using labrador_eligible by (simp add: labrador_table_def)
  from C10_blank_query[OF h1 h2 h3 h4, of example_scorer]
  obtain ms where ms:
    "ms = map (\<lambda>r. candidate (if get_label (snd r) = [] \<or> fst r = [] then Exact else Partial) r)
            (filter (\<lambda>r. eligible (capitalize (lower ''dog'') @ ''~'') (snd r)) labrador_table)"
    "search_table example_scorer labrador_table ''   '' (lower ''dog'')
       = Inr \<lparr>matches = ms, count = length ms\<rparr>"
    by blast
  from ms(1) el have "ms \<noteq> []" by simp
  with ms(2) have "\<exists>ms. search_table example_scorer labrador_table ''   '' (lower ''dog'')
            = Inr \<lparr>matches = ms, count = length ms\<rparr> \<and> ms \<noteq> []"
    by blast
  with lower_dog h2 sp h4 labrador_blank_resolved show ?thesis by simp
qed

text \<open>
  C10 as stated returns every eligible record as a partial candidate. The exact test
  comes first and an empty normalised query equals an empty label: an eligible entry
  without a \<^verbatim>\<open>label\<close> is returned for a single space as an exact candidate.
\<close>

theorem C10_counterexample:
  "search_table example_scorer unlabelled_table '' '' ''dog'' =
     Inr \<lparr>matches =
           [\<lparr>key = ''mixed-breed'', label = [], breed_id = ''401'', match_type = Exact, score = None\<rparr>],
          count = 1\<rparr>"
  by code_simp

end
